theory Spec2Isabelle
  imports Main "HOL-Library.Sublist"
begin

section \<open>Data model (package types)\<close>

text \<open>
  The protocol types of package \<open>types\<close>. A Go pointer field (\<open>*string\<close>, \<open>*Message\<close>,
  \<open>*int\<close>) is an \<open>option\<close>, \<open>None\<close> being \<open>nil\<close>. \<open>TaskState\<close> is a Go string type, so any
  string is a state; the seven constants are the named ones.
\<close>

type_synonym TaskState = string

abbreviation TaskSubmitted :: TaskState where "TaskSubmitted \<equiv> ''submitted''"
abbreviation TaskWorking :: TaskState where "TaskWorking \<equiv> ''working''"
abbreviation TaskInputNeeded :: TaskState where "TaskInputNeeded \<equiv> ''input-required''"
abbreviation TaskCompleted :: TaskState where "TaskCompleted \<equiv> ''completed''"
abbreviation TaskCanceled :: TaskState where "TaskCanceled \<equiv> ''canceled''"
abbreviation TaskFailed :: TaskState where "TaskFailed \<equiv> ''failed''"
abbreviation TaskUnknown :: TaskState where "TaskUnknown \<equiv> ''unknown''"

text \<open>
  A value of the empty interface \<open>interface{}\<close>, as far as this development looks into
  one: the shapes \<open>encoding/json\<close> reads and writes. A number is a whole number, whether
  the Go value is of an integer type (the \<open>iat\<close> that \<open>GenerateJWT\<close> writes, an integer
  in a payload) or a \<open>float64\<close> (every number that \<open>encoding/json\<close> decodes into an
  \<open>interface{}\<close>); numbers with a fractional part are left out.
\<close>

datatype iface =
    INil
  | IBool bool
  | INum int
  | IStr string
  | IList "iface list"
  | IMap "(string \<times> iface) list"

text \<open>
  A Go slice used as a value: \<open>None\<close> is the \<open>nil\<close> slice, \<open>Some xs\<close> a non-nil slice with
  elements \<open>xs\<close>. The task store only ever appends to the slice it holds and reads it
  through its current header, so its backing array needs no model of its own.
\<close>

type_synonym 'a slice = "'a list option"

definition elems :: "'a slice \<Rightarrow> 'a list" where
  "elems s = (case s of None \<Rightarrow> [] | Some xs \<Rightarrow> xs)"

definition len :: "'a slice \<Rightarrow> int" where
  "len s = int (length (elems s))"

definition append_slice :: "'a slice \<Rightarrow> 'a list \<Rightarrow> 'a slice" where
  \<comment> \<open>\<open>append(s, xs...)\<close>: appending nothing to \<open>nil\<close> stays \<open>nil\<close>.\<close>
  "append_slice s xs = (if s = None \<and> xs = [] then None else Some (elems s @ xs))"

definition reslice_from :: "'a slice \<Rightarrow> int \<Rightarrow> 'a slice" where
  \<comment> \<open>\<open>s[lo:]\<close> for \<open>0 \<le> lo \<le> len(s)\<close> (the only use is inside that range).\<close>
  "reslice_from s lo = (case s of None \<Rightarrow> None | Some xs \<Rightarrow> Some (drop (nat lo) xs))"

record Message =
  Role :: string
  Parts :: "iface list"
  Message_Metadata :: "(string \<times> iface) list option"

record TaskStatus =
  State :: TaskState
  Message :: "Message option"
  Timestamp :: string

record Artifact =
  Name :: "string option"
  Description :: "string option"
  Artifact_Parts :: "iface list"
  Artifact_Metadata :: "(string \<times> iface) list option"
  Index :: int
  Append :: "bool option"
  LastChunk :: "bool option"

record Task =
  ID :: string
  SessionID :: "string option"
  Status :: TaskStatus
  Artifacts :: "Artifact slice"
  History :: "Message slice"
  Metadata :: "(string \<times> iface) list option"

record AuthenticationInfo =
  Schemes :: "string list"
  Credentials :: "string option"

record PushNotificationConfig =
  URL :: string
  Token :: "string option"
  Authentication :: "AuthenticationInfo option"

record TaskIdParams =
  TaskIdParams_ID :: string
  TaskIdParams_Metadata :: "(string \<times> iface) list option"

record TaskQueryParams = TaskIdParams +
  HistoryLength :: "int option"

record TaskSendParams =
  TaskSendParams_ID :: string
  TaskSendParams_SessionID :: string
  TaskSendParams_Message :: Message
  AcceptedOutputModes :: "string list"
  PushNotification :: "PushNotificationConfig option"
  TaskSendParams_HistoryLength :: "int option"
  TaskSendParams_Metadata :: "(string \<times> iface) list option"

text \<open>
  \<open>JSONRPCRequest.Params\<close> is an \<open>interface{}\<close> that each handler type-asserts to the
  parameter struct it expects; the assertion panics on any other dynamic type.
\<close>

datatype params =
    QueryParams TaskQueryParams
  | IdParams TaskIdParams
  | SendParams TaskSendParams
  | OtherParams iface

record JSONRPCRequest =
  JSONRPC :: string
  JSONRPCRequest_ID :: iface
  Method :: string
  Params :: params

text \<open>
  Go errors as values. The first seven are made by this repository (the comment gives the
  text of each); the others come from the packages it calls.
\<close>

datatype error =
    TaskNotFound                \<comment> \<open>\<open>task not found\<close>\<close>
  | ResubscribeNotFound         \<comment> \<open>\<open>task not found for resubscription\<close>\<close>
  | InvalidAuthHeader           \<comment> \<open>\<open>invalid auth header\<close>\<close>
  | UnexpectedSigningMethod     \<comment> \<open>\<open>unexpected signing method\<close>\<close>
  | InvalidTokenClaims          \<comment> \<open>\<open>invalid token claims\<close>\<close>
  | TokenExpired                \<comment> \<open>\<open>token expired\<close>\<close>
  | DigestMismatch              \<comment> \<open>\<open>digest mismatch\<close>\<close>
  | TokenMalformed              \<comment> \<open>jwt: the string is not a compact token\<close>
  | TokenUnverifiable error     \<comment> \<open>jwt: no signing method, or the key function failed\<close>
  | UnavailableSigningMethod    \<comment> \<open>jwt: the header names no registered algorithm\<close>
  | TokenSignatureInvalid       \<comment> \<open>jwt: the signature does not verify\<close>
  | TokenInvalidClaims          \<comment> \<open>jwt: \<open>exp\<close> or \<open>nbf\<close> rejects the token\<close>
  | InvalidKey                  \<comment> \<open>jwt: no usable key\<close>
  | EOF                         \<comment> \<open>\<open>io.EOF\<close>\<close>
  | JSONError string            \<comment> \<open>an error of \<open>encoding/json\<close>\<close>
  | TransportError string       \<comment> \<open>an error of \<open>net/http\<close>'s client\<close>

text \<open>A call returns, or panics (a failed type assertion).\<close>

datatype 'a outcome = Returns 'a | Panics

section \<open>The in-memory task store\<close>

text \<open>
  The subscriber registry holds Go slices of channels. A removal rewrites the backing
  array of such a slice in place while a publisher may still be walking an older header
  of it, so these slices are modelled with their backing arrays: a header names an array
  of the heap, an offset, a length and a capacity. A channel is a number; \<open>0\<close> is the
  \<open>nil\<close> channel.
\<close>

type_synonym chan = nat

record chan_slice =
  arr :: nat
  off :: nat
  slen :: nat
  scap :: nat

text \<open>
  \<open>InMemoryTaskManager\<close>: the two maps behind \<open>tm.lock\<close> and the registry behind
  \<open>tm.subscriberLock\<close>. \<open>upsertTask\<close> and \<open>updateStore\<close> hold \<open>tm.lock\<close> from their first
  access to their last, so each is one atomic step from manager to manager.
  \<open>OnGetTask\<close> and \<open>OnCancelTask\<close> hold it for the lookup only and read the task after
  releasing it; here the lookup and the read are one step. The task map holds
  \<open>*types.Task\<close>; a key that is absent reads as \<open>nil\<close>.
\<close>

record InMemoryTaskManager =
  tasks :: "string \<rightharpoonup> Task"
  pushNotificationInfos :: "string \<rightharpoonup> PushNotificationConfig"
  taskSSESubscribers :: "string \<rightharpoonup> chan_slice"

definition NewInMemoryTaskManager :: InMemoryTaskManager where
  "NewInMemoryTaskManager =
     \<lparr>tasks = Map.empty, pushNotificationInfos = Map.empty, taskSSESubscribers = Map.empty\<rparr>"

definition upsertTask ::
  "string \<Rightarrow> TaskSendParams \<Rightarrow> InMemoryTaskManager \<Rightarrow> Task \<times> InMemoryTaskManager" where
  \<comment> \<open>the first argument is \<open>time.Now().Format(time.RFC3339)\<close>\<close>
  "upsertTask now taskSendParams tm =
     (case tasks tm (TaskSendParams_ID taskSendParams) of
        None \<Rightarrow>
          let task = \<lparr>ID = TaskSendParams_ID taskSendParams,
                      SessionID = Some (TaskSendParams_SessionID taskSendParams),
                      Status = \<lparr>State = TaskSubmitted, Message = None, Timestamp = now\<rparr>,
                      Artifacts = None,
                      History = Some [TaskSendParams_Message taskSendParams],
                      Metadata = None\<rparr>
          in (task, tm\<lparr>tasks := (tasks tm)(TaskSendParams_ID taskSendParams \<mapsto> task)\<rparr>)
      | Some task \<Rightarrow>
          let task' = task\<lparr>History :=
                        append_slice (History task) [TaskSendParams_Message taskSendParams]\<rparr>
          in (task', tm\<lparr>tasks := (tasks tm)(TaskSendParams_ID taskSendParams \<mapsto> task')\<rparr>))"

definition updateStore ::
  "string \<Rightarrow> TaskStatus \<Rightarrow> Artifact slice \<Rightarrow> InMemoryTaskManager
     \<Rightarrow> (error + Task) \<times> InMemoryTaskManager" where
  "updateStore taskID status artifacts tm =
     (case tasks tm taskID of
        None \<Rightarrow> (Inl TaskNotFound, tm)
      | Some task \<Rightarrow>
          let task1 = task\<lparr>Status := status\<rparr>;
              task2 = (case Message status of
                         None \<Rightarrow> task1
                       | Some m \<Rightarrow> task1\<lparr>History := append_slice (History task1) [m]\<rparr>);
              task3 = (case artifacts of
                         None \<Rightarrow> task2
                       | Some new \<Rightarrow>
                           let task2' = (if Artifacts task2 = None
                                         then task2\<lparr>Artifacts := Some []\<rparr> else task2)
                           in task2'\<lparr>Artifacts := append_slice (Artifacts task2') new\<rparr>)
          in (Inr task3, tm\<lparr>tasks := (tasks tm)(taskID \<mapsto> task3)\<rparr>))"

definition appendTaskHistory :: "Task \<Rightarrow> int option \<Rightarrow> Task" where
  \<comment> \<open>works on a copy \<open>newTask := *task\<close>; the stored task is only read\<close>
  "appendTaskHistory task historyLength =
     (case historyLength of
        None \<Rightarrow> task\<lparr>History := Some []\<rparr>
      | Some n \<Rightarrow>
          if n > 0 then
            (if len (History task) > n
             then task\<lparr>History := reslice_from (History task) (len (History task) - n)\<rparr>
             else task)
          else task\<lparr>History := Some []\<rparr>)"

definition OnGetTask ::
  "JSONRPCRequest \<Rightarrow> InMemoryTaskManager \<Rightarrow> Task option outcome \<times> InMemoryTaskManager" where
  \<comment> \<open>the result is \<open>GetTaskResponse.Result\<close>\<close>
  "OnGetTask request tm =
     (case Params request of
        QueryParams taskQueryParams \<Rightarrow>
          (case tasks tm (TaskIdParams_ID taskQueryParams) of
             None \<Rightarrow> (Returns None, tm)
           | Some task \<Rightarrow>
               (Returns (Some (appendTaskHistory task (HistoryLength taskQueryParams))), tm))
      | _ \<Rightarrow> (Panics, tm))"

definition OnCancelTask ::
  "JSONRPCRequest \<Rightarrow> InMemoryTaskManager \<Rightarrow> Task option outcome \<times> InMemoryTaskManager" where
  \<comment> \<open>the result is \<open>CancelTaskResponse.Result\<close>, \<open>nil\<close> on both paths\<close>
  "OnCancelTask request tm =
     (case Params request of
        IdParams taskIDParams \<Rightarrow>
          (case tasks tm (TaskIdParams_ID taskIDParams) of
             None \<Rightarrow> (Returns None, tm)
           | Some task \<Rightarrow> (Returns None, tm))
      | _ \<Rightarrow> (Panics, tm))"

section \<open>Server-sent events: registry, publisher and subscriber goroutines\<close>

text \<open>
  What travels on a subscriber's queue is an \<open>interface{}\<close>; the subscriber tells three
  dynamic types apart.
\<close>

record JSONRPCError =
  Code :: int
  JSONRPCError_Message :: string
  Data :: iface

record TaskStatusUpdateEvent =
  TaskStatusUpdateEvent_ID :: string
  TaskStatusUpdateEvent_Status :: TaskStatus
  Final :: bool
  TaskStatusUpdateEvent_Metadata :: "(string \<times> iface) list option"

record TaskArtifactUpdateEvent =
  TaskArtifactUpdateEvent_ID :: string
  TaskArtifactUpdateEvent_Artifact :: Artifact
  TaskArtifactUpdateEvent_Metadata :: "(string \<times> iface) list option"

datatype event =
    StatusUpdate TaskStatusUpdateEvent
  | ArtifactUpdate TaskArtifactUpdateEvent
  | RPCError JSONRPCError
  | OtherEvent iface

record SendTaskStreamingResponse =
  Result :: "event option"
  Error :: "JSONRPCError option"
  SendTaskStreamingResponse_ID :: iface

subsection \<open>Slices of channels over a heap of backing arrays\<close>

type_synonym heap = "chan list list"

definition slice_elems :: "heap \<Rightarrow> chan_slice \<Rightarrow> chan list" where
  "slice_elems h s = take (slen s) (drop (off s) (h ! arr s))"

definition slice_index :: "heap \<Rightarrow> chan_slice \<Rightarrow> nat \<Rightarrow> chan" where
  \<comment> \<open>\<open>s[i]\<close>, read from the backing array as it is now\<close>
  "slice_index h s i = (h ! arr s) ! (off s + i)"

definition slice_to :: "chan_slice \<Rightarrow> nat \<Rightarrow> chan_slice" where
  \<comment> \<open>\<open>s[:i]\<close>: same array, same capacity\<close>
  "slice_to s i = s\<lparr>slen := i\<rparr>"

definition slice_from :: "chan_slice \<Rightarrow> nat \<Rightarrow> chan_slice" where
  \<comment> \<open>\<open>s[i:]\<close>\<close>
  "slice_from s i = s\<lparr>off := off s + i, slen := slen s - i, scap := scap s - i\<rparr>"

definition write_at :: "chan list \<Rightarrow> nat \<Rightarrow> chan list \<Rightarrow> chan list" where
  "write_at xs pos ys = take pos xs @ ys @ drop (pos + length ys) xs"

text \<open>
  \<open>append(a, ys...)\<close>. When the capacity of \<open>a\<close> holds the result, the values are written
  into \<open>a\<close>'s own array behind its last element and every other header of that array
  sees them; otherwise a new array is allocated. How much larger than needed the new
  array is, is the runtime's choice: \<open>grow\<close> maps the old capacity and the needed length
  to the new capacity. The values \<open>ys\<close> are read before anything is written, as
  \<open>memmove\<close> does for overlapping ranges.
\<close>

definition go_append ::
  "(nat \<Rightarrow> nat \<Rightarrow> nat) \<Rightarrow> heap \<Rightarrow> chan_slice \<Rightarrow> chan list \<Rightarrow> heap \<times> chan_slice" where
  "go_append grow h a ys =
     (let needed = slen a + length ys in
      if needed \<le> scap a
      then (h[arr a := write_at (h ! arr a) (off a + slen a) ys], a\<lparr>slen := needed\<rparr>)
      else
        (let newcap = max needed (grow (scap a) needed)
         in (h @ [slice_elems h a @ ys @ replicate (newcap - needed) 0],
             \<lparr>arr = length h, off = 0, slen = needed, scap = newcap\<rparr>)))"

definition growslice :: "nat \<Rightarrow> nat \<Rightarrow> nat" where
  \<comment> \<open>the Go runtime's rule for capacities below 256: double, or take what is needed\<close>
  "growslice oldcap needed = (if needed > 2 * oldcap then needed else 2 * oldcap)"

subsection \<open>Goroutines\<close>

text \<open>
  A subscriber goroutine is the closure \<open>dequeueEventsForSSE\<close> starts; it stands at one of
  its blocking points or between its two deferred calls. \<open>Forwarding r brk\<close>: blocked in
  \<open>responseChan <- r\<close>, and \<open>brk\<close> tells whether the loop is left after it. The
  responses its reader has taken from \<open>responseChan\<close> are \<open>delivered\<close>. Nothing in the
  package closes a queue, so a receive always yields an event.
\<close>

datatype subscriber_pc =
    Receiving
  | Forwarding SendTaskStreamingResponse bool
  | Leaving
  | Closing
  | Finished

record subscriber =
  requestID :: iface
  sub_taskID :: string
  sseEventQueue :: chan
  sub_pc :: subscriber_pc
  delivered :: "SendTaskStreamingResponse list"
  responseChan_closed :: bool

text \<open>
  A publisher is one call of \<open>enqueueEventsForSSE\<close>: the slice header it copied under the
  lock, and where its \<open>range\<close> loop stands. \<open>Ranging i\<close>: about to read element \<open>i\<close>;
  \<open>Sending i c\<close>: blocked in \<open>c <- taskUpdateEvent\<close>.
\<close>

datatype publisher_pc =
    Ranging nat
  | Sending nat chan
  | Returned

record publisher =
  pub_taskID :: string
  taskUpdateEvent :: event
  subscribers :: chan_slice
  pub_pc :: publisher_pc

record world =
  mgr :: InMemoryTaskManager
  arrays :: heap
  chans :: nat
  subs :: "subscriber list"
  pubs :: "publisher list"

definition new_world :: world where
  \<comment> \<open>array \<open>0\<close> is the empty array behind every zero-capacity slice\<close>
  "new_world = \<lparr>mgr = NewInMemoryTaskManager, arrays = [[]], chans = 0, subs = [], pubs = []\<rparr>"

definition set_registry :: "string \<Rightarrow> chan_slice \<Rightarrow> world \<Rightarrow> world" where
  "set_registry taskID s w =
     w\<lparr>mgr := (mgr w)\<lparr>taskSSESubscribers := (taskSSESubscribers (mgr w))(taskID \<mapsto> s)\<rparr>\<rparr>"

definition setupSSEConsumer ::
  "(nat \<Rightarrow> nat \<Rightarrow> nat) \<Rightarrow> string \<Rightarrow> bool \<Rightarrow> world \<Rightarrow> (error + chan) \<times> world" where
  "setupSSEConsumer grow taskID isResubscribe w =
     (if taskSSESubscribers (mgr w) taskID = None \<and> isResubscribe
      then (Inl ResubscribeNotFound, w)
      else
        let current = (case taskSSESubscribers (mgr w) taskID of
                         None \<Rightarrow> \<lparr>arr = 0, off = 0, slen = 0, scap = 0\<rparr>
                       | Some s \<Rightarrow> s);
            sseEventQueue = Suc (chans w);
            (h, s') = go_append grow (arrays w) current [sseEventQueue]
        in (Inr sseEventQueue,
            set_registry taskID s' (w\<lparr>arrays := h, chans := sseEventQueue\<rparr>)))"

definition dequeueEventsForSSE :: "iface \<Rightarrow> string \<Rightarrow> chan \<Rightarrow> world \<Rightarrow> nat \<times> world" where
  \<comment> \<open>starts the goroutine; the number returned stands for its \<open>responseChan\<close>\<close>
  "dequeueEventsForSSE rid taskID queue w =
     (length (subs w),
      w\<lparr>subs := subs w @ [\<lparr>requestID = rid, sub_taskID = taskID, sseEventQueue = queue,
                             sub_pc = Receiving, delivered = [], responseChan_closed = False\<rparr>]\<rparr>)"

definition received :: "iface \<Rightarrow> event \<Rightarrow> subscriber_pc" where
  \<comment> \<open>the loop body from the receive to the next blocking point\<close>
  "received rid ev =
     (case ev of
        RPCError err \<Rightarrow>
          Forwarding \<lparr>Result = None, Error = Some err, SendTaskStreamingResponse_ID = rid\<rparr> True
      | StatusUpdate statusEvent \<Rightarrow>
          Forwarding \<lparr>Result = Some ev, Error = None, SendTaskStreamingResponse_ID = rid\<rparr>
            (Final statusEvent)
      | _ \<Rightarrow>
          Forwarding \<lparr>Result = Some ev, Error = None, SendTaskStreamingResponse_ID = rid\<rparr> False)"

fun find_sub :: "chan list \<Rightarrow> chan \<Rightarrow> nat option" where
  "find_sub [] c = None"
| "find_sub (x # xs) c = (if x = c then Some 0 else map_option Suc (find_sub xs c))"

definition remove_subscriber ::
  "(nat \<Rightarrow> nat \<Rightarrow> nat) \<Rightarrow> string \<Rightarrow> chan \<Rightarrow> world \<Rightarrow> world" where
  \<comment> \<open>the deferred closure of the goroutine, under \<open>subscriberLock\<close>\<close>
  "remove_subscriber grow taskID queue w =
     (case taskSSESubscribers (mgr w) taskID of
        None \<Rightarrow> w
      | Some s \<Rightarrow>
          (case find_sub (slice_elems (arrays w) s) queue of
             None \<Rightarrow> w
           | Some i \<Rightarrow>
               let (h, s') = go_append grow (arrays w) (slice_to s i)
                               (slice_elems (arrays w) (slice_from s (i + 1)))
               in set_registry taskID s' (w\<lparr>arrays := h\<rparr>)))"

subsection \<open>Interleavings\<close>

text \<open>
  The goroutines run interleaved; an action is one step of one of them, or a call from
  outside. \<open>step\<close> is \<open>None\<close> when the action cannot happen in that world: its goroutine
  is elsewhere, or is blocked. A send on an unbuffered channel and the matching receive
  are one step, \<open>Handoff\<close>. The queue handed to \<open>dequeueEventsForSSE\<close> is a channel that
  has been made, or \<open>nil\<close>.
\<close>

datatype action =
    Subscribe string bool       \<comment> \<open>a call of \<open>setupSSEConsumer\<close>\<close>
  | Dequeue iface string chan   \<comment> \<open>a call of \<open>dequeueEventsForSSE\<close>\<close>
  | Publish string event        \<comment> \<open>\<open>enqueueEventsForSSE\<close> up to its loop\<close>
  | Next nat                    \<comment> \<open>publisher: the head of its \<open>range\<close> loop\<close>
  | Handoff nat nat             \<comment> \<open>publisher's send taken by a subscriber goroutine\<close>
  | Forward nat                 \<comment> \<open>the reader of \<open>responseChan\<close> takes the response\<close>
  | Remove nat                  \<comment> \<open>subscriber goroutine: deferred removal\<close>
  | CloseResponse nat           \<comment> \<open>subscriber goroutine: deferred \<open>close(responseChan)\<close>\<close>

definition step :: "(nat \<Rightarrow> nat \<Rightarrow> nat) \<Rightarrow> action \<Rightarrow> world \<Rightarrow> world option" where
  "step grow a w =
     (case a of
        Subscribe taskID isResubscribe \<Rightarrow> Some (snd (setupSSEConsumer grow taskID isResubscribe w))
      | Dequeue rid taskID queue \<Rightarrow>
          (if queue \<le> chans w then Some (snd (dequeueEventsForSSE rid taskID queue w))
           else None)
      | Publish taskID ev \<Rightarrow>
          (case taskSSESubscribers (mgr w) taskID of
             None \<Rightarrow> Some w
           | Some s \<Rightarrow>
               Some (w\<lparr>pubs := pubs w @ [\<lparr>pub_taskID = taskID, taskUpdateEvent = ev,
                                             subscribers = s, pub_pc = Ranging 0\<rparr>]\<rparr>))
      | Next p \<Rightarrow>
          (if p < length (pubs w) then
             (case pub_pc (pubs w ! p) of
                Ranging i \<Rightarrow>
                  Some (w\<lparr>pubs := (pubs w)[p := (pubs w ! p)\<lparr>pub_pc :=
                      (if i < slen (subscribers (pubs w ! p))
                       then Sending i (slice_index (arrays w) (subscribers (pubs w ! p)) i)
                       else Returned)\<rparr>]\<rparr>)
              | _ \<Rightarrow> None)
           else None)
      | Handoff p g \<Rightarrow>
          (if p < length (pubs w) \<and> g < length (subs w) then
             (case pub_pc (pubs w ! p) of
                Sending i c \<Rightarrow>
                  (if c \<noteq> 0 \<and> sseEventQueue (subs w ! g) = c \<and> sub_pc (subs w ! g) = Receiving
                   then Some (w\<lparr>pubs := (pubs w)[p := (pubs w ! p)\<lparr>pub_pc := Ranging (Suc i)\<rparr>],
                                 subs := (subs w)[g := (subs w ! g)\<lparr>sub_pc :=
                                   received (requestID (subs w ! g))
                                     (taskUpdateEvent (pubs w ! p))\<rparr>]\<rparr>)
                   else None)
              | _ \<Rightarrow> None)
           else None)
      | Forward g \<Rightarrow>
          (if g < length (subs w) then
             (case sub_pc (subs w ! g) of
                Forwarding r brk \<Rightarrow>
                  Some (w\<lparr>subs := (subs w)[g := (subs w ! g)
                      \<lparr>sub_pc := (if brk then Leaving else Receiving),
                       delivered := delivered (subs w ! g) @ [r]\<rparr>]\<rparr>)
              | _ \<Rightarrow> None)
           else None)
      | Remove g \<Rightarrow>
          (if g < length (subs w) \<and> sub_pc (subs w ! g) = Leaving then
             (let w' = remove_subscriber grow (sub_taskID (subs w ! g))
                         (sseEventQueue (subs w ! g)) w
              in Some (w'\<lparr>subs := (subs w')[g := (subs w' ! g)\<lparr>sub_pc := Closing\<rparr>]\<rparr>))
           else None)
      | CloseResponse g \<Rightarrow>
          (if g < length (subs w) \<and> sub_pc (subs w ! g) = Closing then
             Some (w\<lparr>subs := (subs w)[g := (subs w ! g)
                 \<lparr>sub_pc := Finished, responseChan_closed := True\<rparr>]\<rparr>)
           else None))"

fun exec :: "(nat \<Rightarrow> nat \<Rightarrow> nat) \<Rightarrow> action list \<Rightarrow> world \<Rightarrow> world option" where
  "exec grow [] w = Some w"
| "exec grow (a # as) w = (case step grow a w of None \<Rightarrow> None | Some w' \<Rightarrow> exec grow as w')"

section \<open>Push-notification authentication\<close>

subsection \<open>HTTP\<close>

record Request =
  Request_Method :: string
  RequestURI :: string
  Header :: "(string \<times> string) list"
  Body :: string

record Response =
  StatusCode :: nat
  Response_Header :: "(string \<times> string) list"
  Response_Body :: string

definition Header_Get :: "(string \<times> string) list \<Rightarrow> string \<Rightarrow> string" where
  \<comment> \<open>header names are kept in canonical form\<close>
  "Header_Get h key = (case map_of h key of None \<Rightarrow> [] | Some v \<Rightarrow> v)"

definition HasPrefix :: "string \<Rightarrow> string \<Rightarrow> bool" where
  "HasPrefix s p = (take (length p) s = p)"

definition TrimPrefix :: "string \<Rightarrow> string \<Rightarrow> string" where
  "TrimPrefix s p = (if HasPrefix s p then drop (length p) s else s)"

definition http_Error :: "string \<Rightarrow> nat \<Rightarrow> Response" where
  "http_Error msg code =
     \<lparr>StatusCode = code,
      Response_Header = [(''Content-Type'', ''text/plain; charset=utf-8''),
                         (''X-Content-Type-Options'', ''nosniff'')],
      Response_Body = msg @ [CHR 0x0A]\<rparr>"

subsection \<open>Time (package time)\<close>

text \<open>
  The reading of the wall clock is a parameter \<open>now\<close> of everything that reads it: an
  integer count of nanoseconds since the Unix epoch, so that \<open>time.Now().Unix()\<close> is
  \<open>now div 10^9\<close>. A \<open>time.Time\<close> is what package \<open>time\<close> holds of one that has no
  monotonic reading: the seconds since 1 January of the year 1, an \<open>int64\<close>, and the
  nanoseconds within the second. \<open>time.Unix\<close> adds the offset of the Unix epoch with an
  \<open>int64\<close> addition, which wraps around. \<open>Sub\<close> returns the largest or the smallest
  \<open>Duration\<close> when the difference does not fit one. The clock itself is taken to read a
  time that a \<open>time.Time\<close> holds, so \<open>time_Now\<close> does not wrap.

  The language leaves the conversion \<open>int64(f)\<close> of a \<open>float64\<close> that no \<open>int64\<close> holds
  to the implementation. \<open>int64_of_float64\<close> gives what amd64 gives there, the smallest
  \<open>int64\<close>; arm64 gives the nearest \<open>int64\<close> instead.
\<close>

record Time =
  Time_sec :: int
  Time_nsec :: int

definition wrap64 :: "int \<Rightarrow> int" where
  \<comment> \<open>the \<open>int64\<close> that agrees with an integer in its low 64 bits\<close>
  "wrap64 x = (x + 2 ^ 63) mod 2 ^ 64 - 2 ^ 63"

definition int64_of_float64 :: "int \<Rightarrow> int" where
  "int64_of_float64 f = (if - (2 ^ 63) \<le> f \<and> f < 2 ^ 63 then f else - (2 ^ 63))"

definition unixToInternal :: int where
  \<comment> \<open>the seconds from 1 January of the year 1 to the Unix epoch\<close>
  "unixToInternal = 62135596800"

definition time_Now :: "int \<Rightarrow> Time" where
  "time_Now now = \<lparr>Time_sec = now div 10 ^ 9 + unixToInternal, Time_nsec = now mod 10 ^ 9\<rparr>"

definition time_Unix :: "int \<Rightarrow> Time" where
  \<comment> \<open>\<open>time.Unix(sec, 0)\<close>\<close>
  "time_Unix sec = \<lparr>Time_sec = wrap64 (sec + unixToInternal), Time_nsec = 0\<rparr>"

definition time_Before :: "Time \<Rightarrow> Time \<Rightarrow> bool" where
  "time_Before t u =
     (Time_sec t < Time_sec u \<or> (Time_sec t = Time_sec u \<and> Time_nsec t < Time_nsec u))"

definition minDuration :: int where
  "minDuration = - (2 ^ 63)"

definition maxDuration :: int where
  "maxDuration = 2 ^ 63 - 1"

definition saturate :: "int \<Rightarrow> int" where
  \<comment> \<open>the \<open>Duration\<close> that \<open>Sub\<close> returns for a difference of so many nanoseconds\<close>
  "saturate d =
     (if d < minDuration then minDuration else if maxDuration < d then maxDuration else d)"

definition time_Sub :: "Time \<Rightarrow> Time \<Rightarrow> int" where
  "time_Sub t u = saturate ((Time_sec t - Time_sec u) * 10 ^ 9 + (Time_nsec t - Time_nsec u))"

definition time_Since :: "int \<Rightarrow> Time \<Rightarrow> int" where
  "time_Since now t = time_Sub (time_Now now) t"

subsection \<open>The packages the code calls\<close>

text \<open>
  \<open>map[string]interface{}\<close> is an association list read with \<open>map_of\<close>; \<open>None\<close> is the
  \<open>nil\<close> map.

  RSA is symbolic: a key pair is a number, the private and the public half carrying the
  same one, and the only signature that verifies under public key \<open>k\<close> for an algorithm
  and a signing input (header and claims) is the one made from exactly these with
  private key \<open>k\<close>.
\<close>

type_synonym jmap = "(string \<times> iface) list option"

datatype signature =
    RSASignature nat string "(string \<times> iface) list" "(string \<times> iface) list"
  | OtherSignature string

record jwt_parts =
  parts_header :: "(string \<times> iface) list"
  parts_claims :: "(string \<times> iface) list"
  parts_signature :: signature

text \<open>
  What is left as a parameter: the JSON codec (\<open>Encoder.Encode\<close>, \<open>Marshal\<close>,
  \<open>Unmarshal\<close>, and \<open>Decoder.Decode\<close> on an input that is not empty), SHA-256 printed in
  hexadecimal, the compact serialisation of a token and its inverse, the text of an
  error, and what the listener's \<open>ServeMux\<close> does with a request for a path that is
  neither of its two patterns (it redirects to the cleaned path, or answers that there is
  no such page). \<open>json_Unmarshal\<close> returns the error of the call and the map that the
  variable decoded into holds after it, which its caller reads whatever the error. In a
  map that \<open>json_Unmarshal\<close>, \<open>json_Decode\<close> or \<open>jwt_decode\<close> returns, every number is the
  \<open>float64\<close> that \<open>encoding/json\<close> made of the number in the text.
\<close>

record packages =
  json_Encode :: "jmap \<Rightarrow> error + string"
  json_Marshal :: "jmap \<Rightarrow> error + string"
  json_Unmarshal :: "string \<Rightarrow> error option \<times> jmap"
  json_Decode :: "string \<Rightarrow> error + jmap"
  sha256_hex :: "string \<Rightarrow> string"
  jwt_encode :: "jwt_parts \<Rightarrow> string"
  jwt_decode :: "string \<Rightarrow> jwt_parts option"
  error_string :: "error \<Rightarrow> string"
  ServeMux_other :: "Request \<Rightarrow> Response outcome"

record Token =
  Raw :: string
  Token_Method :: string
  Token_Header :: "(string \<times> iface) list"
  Claims :: "(string \<times> iface) list"
  Signature :: "signature option"
  Valid :: bool

definition map_set :: "(string \<times> iface) list \<Rightarrow> string \<Rightarrow> iface \<Rightarrow> (string \<times> iface) list" where
  \<comment> \<open>\<open>m[k] = v\<close>\<close>
  "map_set m k v = (k, v) # filter (\<lambda>kv. fst kv \<noteq> k) m"

definition signing_methods :: "string list" where
  "signing_methods =
     [''RS256'', ''RS384'', ''RS512'', ''PS256'', ''PS384'', ''PS512'', ''HS256'', ''HS384'',
      ''HS512'', ''ES256'', ''ES384'', ''ES512'', ''EdDSA'', ''none'']"

definition is_SigningMethodRSA :: "string \<Rightarrow> bool" where
  \<comment> \<open>\<open>token.Method.(*jwt.SigningMethodRSA)\<close> succeeds\<close>
  "is_SigningMethodRSA alg = (alg \<in> set [''RS256'', ''RS384'', ''RS512''])"

definition NewWithClaims :: "string \<Rightarrow> (string \<times> iface) list \<Rightarrow> Token" where
  "NewWithClaims method claims =
     \<lparr>Raw = [], Token_Method = method,
      Token_Header = [(''typ'', IStr ''JWT''), (''alg'', IStr method)],
      Claims = claims, Signature = None, Valid = False\<rparr>"

definition SignedString ::
  "packages \<Rightarrow> Token \<Rightarrow> nat option \<Rightarrow> (error + string) outcome" where
  \<comment> \<open>for a key of type \<open>*rsa.PrivateKey\<close>; \<open>crypto/rsa\<close> dereferences a \<open>nil\<close> one\<close>
  "SignedString lib token key =
     (if \<not> is_SigningMethodRSA (Token_Method token) then Returns (Inl InvalidKey)
      else
        case key of
          None \<Rightarrow> Panics
        | Some k \<Rightarrow>
            Returns (Inr (jwt_encode lib
              \<lparr>parts_header = Token_Header token, parts_claims = Claims token,
               parts_signature =
                 RSASignature k (Token_Method token) (Token_Header token) (Claims token)\<rparr>)))"

definition NumericDate :: "int \<Rightarrow> Time" where
  \<comment> \<open>\<open>newNumericDateFromSeconds\<close> of a whole number of seconds\<close>
  "NumericDate f = time_Unix (int64_of_float64 f)"

definition claims_valid :: "int \<Rightarrow> (string \<times> iface) list \<Rightarrow> bool" where
  \<comment> \<open>the validator's defaults: \<open>exp\<close> and \<open>nbf\<close> are checked when present and not zero,
      \<open>iat\<close> is not\<close>
  "claims_valid now claims =
     ((case map_of claims ''exp'' of
         None \<Rightarrow> True
       | Some (INum e) \<Rightarrow> if e = 0 then True else time_Before (time_Now now) (NumericDate e)
       | Some _ \<Rightarrow> False)
      \<and> (case map_of claims ''nbf'' of
            None \<Rightarrow> True
          | Some (INum n) \<Rightarrow> if n = 0 then True else \<not> time_Before (time_Now now) (NumericDate n)
          | Some _ \<Rightarrow> False))"

definition Parse ::
  "packages \<Rightarrow> int \<Rightarrow> string \<Rightarrow> (Token \<Rightarrow> error + nat option)
     \<Rightarrow> (error + Token) outcome" where
  \<comment> \<open>for a key function that returns a \<open>*rsa.PublicKey\<close>; \<open>crypto/rsa\<close> dereferences a
      \<open>nil\<close> one\<close>
  "Parse lib now tokenStr keyFunc =
     (case jwt_decode lib tokenStr of
        None \<Rightarrow> Returns (Inl TokenMalformed)
      | Some parts \<Rightarrow>
          (case map_of (parts_header parts) ''alg'' of
             Some (IStr alg) \<Rightarrow>
               if alg \<in> set signing_methods then
                 (let token = \<lparr>Raw = tokenStr, Token_Method = alg,
                               Token_Header = parts_header parts, Claims = parts_claims parts,
                               Signature = Some (parts_signature parts), Valid = False\<rparr>
                  in case keyFunc token of
                       Inl err \<Rightarrow> Returns (Inl (TokenUnverifiable err))
                     | Inr None \<Rightarrow> Panics
                     | Inr (Some k) \<Rightarrow>
                         if parts_signature parts =
                              RSASignature k alg (parts_header parts) (parts_claims parts)
                         then (if claims_valid now (parts_claims parts)
                               then Returns (Inr (token\<lparr>Valid := True\<rparr>))
                               else Returns (Inl TokenInvalidClaims))
                         else Returns (Inl TokenSignatureInvalid))
               else Returns (Inl UnavailableSigningMethod)
           | _ \<Rightarrow> Returns (Inl UnavailableSigningMethod)))"

subsection \<open>Signing and verifying (package utils)\<close>

abbreviation AuthHeaderPrefix :: string where "AuthHeaderPrefix \<equiv> ''Bearer ''"

record PushNotificationSenderAuth =
  privateKey :: "nat option"
  publicKeys :: "(string \<times> iface) list list"

record PushNotificationReceiverAuth =
  publicKey :: "nat option"

definition calculateRequestBodySHA256 :: "packages \<Rightarrow> jmap \<Rightarrow> error + string" where
  "calculateRequestBodySHA256 lib data =
     (case json_Encode lib data of
        Inl err \<Rightarrow> Inl err
      | Inr buf \<Rightarrow> Inr (sha256_hex lib buf))"

definition VerifyPushNotificationURL ::
  "(string \<Rightarrow> error + Response) \<Rightarrow> string \<Rightarrow> string \<Rightarrow> bool" where
  \<comment> \<open>\<open>http_Get\<close> is the transport, \<open>validationToken\<close> what \<open>uuid.NewString()\<close> returned;
      the response's body is what \<open>io.ReadAll\<close> read of it\<close>
  "VerifyPushNotificationURL http_Get validationToken url =
     (case http_Get (url @ ''?validationToken='' @ validationToken) of
        Inl err \<Rightarrow> False
      | Inr resp \<Rightarrow> Response_Body resp = validationToken)"

definition GenerateJWT ::
  "packages \<Rightarrow> PushNotificationSenderAuth \<Rightarrow> int \<Rightarrow> jmap \<Rightarrow> (error + string) outcome" where
  "GenerateJWT lib s now data =
     (case calculateRequestBodySHA256 lib data of
        Inl err \<Rightarrow> Returns (Inl err)
      | Inr shaDigest \<Rightarrow>
          let claims = [(''iat'', INum (now div 10 ^ 9)),
                        (''request_body_sha256'', IStr shaDigest)];
              token = NewWithClaims ''RS256'' claims;
              token = token\<lparr>Token_Header := map_set (Token_Header token) ''kid''
                                               (IStr ''example-kid'')\<rparr>
          in SignedString lib token (privateKey s))"

definition notification_request :: "packages \<Rightarrow> string \<Rightarrow> string \<Rightarrow> jmap \<Rightarrow> Request" where
  \<comment> \<open>the request \<open>SendPushNotification\<close> builds; a failed \<open>Marshal\<close> leaves the body empty\<close>
  "notification_request lib url token data =
     \<lparr>Request_Method = ''POST'', RequestURI = url,
      Header = [(''Authorization'', ''Bearer '' @ token),
                (''Content-Type'', ''application/json'')],
      Body = (case json_Marshal lib data of Inl err \<Rightarrow> [] | Inr body \<Rightarrow> body)\<rparr>"

definition SendPushNotification ::
  "packages \<Rightarrow> (Request \<Rightarrow> error + Response) \<Rightarrow> PushNotificationSenderAuth \<Rightarrow> int
     \<Rightarrow> string \<Rightarrow> jmap \<Rightarrow> error option outcome" where
  "SendPushNotification lib http_Do s now url data =
     (case GenerateJWT lib s now data of
        Panics \<Rightarrow> Panics
      | Returns (Inl err) \<Rightarrow> Returns (Some err)
      | Returns (Inr token) \<Rightarrow>
          (case http_Do (notification_request lib url token data) of
             Inl err \<Rightarrow> Returns (Some err)
           | Inr resp \<Rightarrow> Returns None))"

definition keyFunc :: "PushNotificationReceiverAuth \<Rightarrow> Token \<Rightarrow> error + nat option" where
  \<comment> \<open>the closure both verifiers pass to \<open>jwt.Parse\<close>\<close>
  "keyFunc r token =
     (if \<not> is_SigningMethodRSA (Token_Method token) then Inl UnexpectedSigningMethod
      else Inr (publicKey r))"

definition five_minutes :: int where
  "five_minutes = 5 * 60 * 10 ^ 9"

text \<open>
  \<open>jwt.Parse\<close> builds the claims as \<open>jwt.MapClaims\<close>, so the type assertion on
  \<open>parsedToken.Claims\<close> succeeds and the branch \<open>invalid token claims\<close> is taken by no
  input; the assertion \<open>claims["iat"].(float64)\<close> panics when the claim is absent or not
  a number. The age of the token is computed as the code computes it, by the conversion
  to \<open>int64\<close>, \<open>time.Unix\<close> and \<open>time.Since\<close>: an \<open>iat\<close> that no \<open>int64\<close> holds, and one
  whose sum with the offset of the Unix epoch wraps around, give a time in the remote
  past, so that such a token has expired.
\<close>

definition VerifyPushNotification ::
  "packages \<Rightarrow> PushNotificationReceiverAuth \<Rightarrow> int \<Rightarrow> Request
     \<Rightarrow> (bool \<times> error option) outcome" where
  "VerifyPushNotification lib r now req =
     (let authHeader = Header_Get (Header req) ''Authorization'' in
      if \<not> HasPrefix authHeader AuthHeaderPrefix then Returns (False, Some InvalidAuthHeader)
      else
        let tokenStr = TrimPrefix authHeader AuthHeaderPrefix in
        case Parse lib now tokenStr (keyFunc r) of
          Panics \<Rightarrow> Panics
        | Returns (Inl err) \<Rightarrow> Returns (False, Some err)
        | Returns (Inr parsedToken) \<Rightarrow>
            if \<not> Valid parsedToken then Returns (False, None)
            else
              (case map_of (Claims parsedToken) ''iat'' of
                 Some (INum iat) \<Rightarrow>
                   if time_Since now (time_Unix (int64_of_float64 iat)) > five_minutes
                   then Returns (False, Some TokenExpired)
                   else
                     let requestBody = snd (json_Unmarshal lib (Body req));
                         actualDigest = (case calculateRequestBodySHA256 lib requestBody of
                                           Inl err \<Rightarrow> []
                                         | Inr d \<Rightarrow> d)
                     in if map_of (Claims parsedToken) ''request_body_sha256''
                             \<noteq> Some (IStr actualDigest)
                        then Returns (False, Some DigestMismatch)
                        else Returns (True, None)
               | _ \<Rightarrow> Panics))"

definition VerifyToken ::
  "packages \<Rightarrow> PushNotificationReceiverAuth \<Rightarrow> int \<Rightarrow> string \<Rightarrow> error option outcome" where
  "VerifyToken lib r now tokenStr =
     (case Parse lib now tokenStr (keyFunc r) of
        Panics \<Rightarrow> Panics
      | Returns (Inl err) \<Rightarrow> Returns (Some err)
      | Returns (Inr parsedToken) \<Rightarrow>
          if \<not> Valid parsedToken then Returns None
          else
            (case map_of (Claims parsedToken) ''iat'' of
               Some (INum iat) \<Rightarrow>
                 if time_Since now (time_Unix (int64_of_float64 iat)) > five_minutes
                 then Returns (Some TokenExpired)
                 else Returns None
             | _ \<Rightarrow> Panics))"

subsection \<open>The listener (package cli)\<close>

definition handleValidationCheck :: "Request \<Rightarrow> Response" where
  "handleValidationCheck r =
     (if Request_Method r \<noteq> ''GET'' then http_Error ''Method not allowed'' 405
      else
        let token = Header_Get (Header r) ''Validation-Token'' in
        if token = [] then http_Error ''Validation token not found'' 400
        else \<lparr>StatusCode = 200, Response_Header = [(''Content-Type'', ''text/plain'')],
              Response_Body = token\<rparr>)"

definition Decode :: "packages \<Rightarrow> string \<Rightarrow> error + jmap" where
  \<comment> \<open>\<open>json.NewDecoder(r.Body).Decode(&notification)\<close>: a body with no bytes is \<open>io.EOF\<close>\<close>
  "Decode lib body = (if body = [] then Inl EOF else json_Decode lib body)"

definition handleNotification ::
  "packages \<Rightarrow> PushNotificationReceiverAuth \<Rightarrow> int \<Rightarrow> Request \<Rightarrow> Response outcome" where
  "handleNotification lib auth now r =
     (if Request_Method r \<noteq> ''POST'' then Returns (http_Error ''Method not allowed'' 405)
      else
        let authHeader = Header_Get (Header r) ''Authorization'' in
        if \<not> HasPrefix authHeader ''Bearer ''
        then Returns (http_Error ''Invalid authorization header'' 401)
        else
          let token = TrimPrefix authHeader ''Bearer '' in
          case VerifyToken lib auth now token of
            Panics \<Rightarrow> Panics
          | Returns (Some err) \<Rightarrow>
              Returns (http_Error (''Invalid token: '' @ error_string lib err) 401)
          | Returns None \<Rightarrow>
              (case Decode lib (Body r) of
                 Inl err \<Rightarrow>
                   Returns (http_Error (''Error decoding notification: '' @ error_string lib err)
                              400)
               | Inr notification \<Rightarrow>
                   Returns \<lparr>StatusCode = 200, Response_Header = [], Response_Body = []\<rparr>))"

definition validation_get :: "string \<Rightarrow> Request" where
  \<comment> \<open>the request \<open>http.Get\<close> sends for a URI: no body, the client's default headers\<close>
  "validation_get uri =
     \<lparr>Request_Method = ''GET'', RequestURI = uri,
      Header = [(''User-Agent'', ''Go-http-client/1.1''), (''Accept-Encoding'', ''gzip'')],
      Body = []\<rparr>"

definition serve ::
  "packages \<Rightarrow> PushNotificationReceiverAuth \<Rightarrow> int \<Rightarrow> Request \<Rightarrow> Response outcome" where
  \<comment> \<open>the mux of \<open>Start\<close>: a request for one of the two patterns reaches its handler, any
      other request is answered as \<open>ServeMux\<close> answers it\<close>
  "serve lib auth now r =
     (let path = takeWhile (\<lambda>c. c \<noteq> CHR ''?'') (RequestURI r) in
      if path = ''/notify'' then handleNotification lib auth now r
      else if path = ''/.well-known/validation-token'' then Returns (handleValidationCheck r)
      else ServeMux_other lib r)"

section \<open>Notions the statements use\<close>

definition terminal :: "TaskState \<Rightarrow> bool" where
  \<comment> \<open>the states the specification calls terminal; the code has no such predicate\<close>
  "terminal s = (s = TaskCompleted \<or> s = TaskCanceled \<or> s = TaskFailed)"

definition listener_Get ::
  "packages \<Rightarrow> PushNotificationReceiverAuth \<Rightarrow> int \<Rightarrow> string \<Rightarrow> string \<Rightarrow> error + Response" where
  \<comment> \<open>the client's \<open>http.Get\<close> when the listener is what answers at \<open>origin\<close>\<close>
  "listener_Get lib auth now origin url =
     (if HasPrefix url origin
      then (case serve lib auth now (validation_get (drop (length origin) url)) of
              Returns resp \<Rightarrow> Inr resp
            | Panics \<Rightarrow> Inl (TransportError ''EOF''))
      else Inl (TransportError ''connection refused''))"

definition received_digest :: "packages \<Rightarrow> string \<Rightarrow> string" where
  \<comment> \<open>\<open>actualDigest\<close> in \<open>VerifyPushNotification\<close>: decode the body, encode it again, hash\<close>
  "received_digest lib body =
     (let requestBody = snd (json_Unmarshal lib body)
      in case calculateRequestBodySHA256 lib requestBody of Inl err \<Rightarrow> [] | Inr d \<Rightarrow> d)"

definition survives_transport :: "packages \<Rightarrow> jmap \<Rightarrow> bool" where
  \<comment> \<open>marshalled, unmarshalled and encoded again, the payload gives the bytes it gave
      when it was encoded for signing\<close>
  "survives_transport lib payload =
     (\<exists>body. json_Marshal lib payload = Inr body
             \<and> json_Encode lib (snd (json_Unmarshal lib body)) = json_Encode lib payload)"

definition issued_parts :: "nat \<Rightarrow> int \<Rightarrow> string \<Rightarrow> jwt_parts" where
  \<comment> \<open>what \<open>GenerateJWT\<close> serialises: header, claims and signature of the token\<close>
  "issued_parts k now shaDigest =
     (let header = [(''kid'', IStr ''example-kid''), (''typ'', IStr ''JWT''),
                    (''alg'', IStr ''RS256'')];
          claims = [(''iat'', INum (now div 10 ^ 9)), (''request_body_sha256'', IStr shaDigest)]
      in \<lparr>parts_header = header, parts_claims = claims,
          parts_signature = RSASignature k ''RS256'' header claims\<rparr>)"

text \<open>
  The registry as a list: the channels registered for a task, in slice order. A registry
  slice is in order when it lies inside its backing array, and the registry as a whole
  when, besides, two tasks never share an array they can write to.
\<close>

definition registered :: "world \<Rightarrow> string \<Rightarrow> chan list" where
  "registered w t =
     (case taskSSESubscribers (mgr w) t of None \<Rightarrow> [] | Some s \<Rightarrow> slice_elems (arrays w) s)"

definition slice_ok :: "heap \<Rightarrow> chan_slice \<Rightarrow> bool" where
  "slice_ok h s = (arr s < length h \<and> off s = 0 \<and> slen s \<le> scap s
                   \<and> scap s \<le> length (h ! arr s))"

definition wf_registry :: "world \<Rightarrow> bool" where
  "wf_registry w =
     (arrays w \<noteq> []
      \<and> (\<forall>t s. taskSSESubscribers (mgr w) t = Some s \<longrightarrow> slice_ok (arrays w) s)
      \<and> (\<forall>t t' s s'. t \<noteq> t' \<and> taskSSESubscribers (mgr w) t = Some s
               \<and> taskSSESubscribers (mgr w) t' = Some s' \<and> 0 < scap s \<and> 0 < scap s'
             \<longrightarrow> arr s \<noteq> arr s'))"

definition acts_on :: "nat \<Rightarrow> action \<Rightarrow> bool" where
  \<comment> \<open>the action is a step of subscriber goroutine \<open>g\<close>\<close>
  "acts_on g a =
     (case a of
        Handoff p g' \<Rightarrow> g' = g
      | Forward g' \<Rightarrow> g' = g
      | Remove g' \<Rightarrow> g' = g
      | CloseResponse g' \<Rightarrow> g' = g
      | _ \<Rightarrow> False)"

definition registry_inv :: "world \<Rightarrow> bool" where
  "registry_inv w =
     (wf_registry w
      \<and> (\<forall>t. distinct (registered w t) \<and> (\<forall>c \<in> set (registered w t). c \<le> chans w))
      \<and> (\<forall>g < length (subs w). sseEventQueue (subs w ! g) \<le> chans w))"



section \<open>Fixtures for concrete runs\<close>

definition message :: "string \<Rightarrow> string \<Rightarrow> Message" where
  "message role txt = \<lparr>Role = role, Parts = [IStr txt], Message_Metadata = None\<rparr>"

definition send_params :: "string \<Rightarrow> string \<Rightarrow> Message \<Rightarrow> TaskSendParams" where
  "send_params taskID sessionID m =
     \<lparr>TaskSendParams_ID = taskID, TaskSendParams_SessionID = sessionID,
      TaskSendParams_Message = m, AcceptedOutputModes = [], PushNotification = None,
      TaskSendParams_HistoryLength = None, TaskSendParams_Metadata = None\<rparr>"

definition status_of :: "TaskState \<Rightarrow> Message option \<Rightarrow> TaskStatus" where
  "status_of st m = \<lparr>State = st, Message = m, Timestamp = ''2025-01-01T00:00:01Z''\<rparr>"

definition artifact1 :: Artifact where
  "artifact1 = \<lparr>Name = Some ''out'', Description = None, Artifact_Parts = [IStr ''chunk''],
                 Artifact_Metadata = None, Index = 0, Append = None, LastChunk = None\<rparr>"

definition get_request :: "string \<Rightarrow> int option \<Rightarrow> JSONRPCRequest" where
  "get_request taskID n =
     \<lparr>JSONRPC = ''2.0'', JSONRPCRequest_ID = INum 1, Method = ''tasks/get'',
      Params = QueryParams \<lparr>TaskIdParams_ID = taskID, TaskIdParams_Metadata = None,
                             HistoryLength = n\<rparr>\<rparr>"

definition cancel_request :: "string \<Rightarrow> JSONRPCRequest" where
  "cancel_request taskID =
     \<lparr>JSONRPC = ''2.0'', JSONRPCRequest_ID = INum 2, Method = ''tasks/cancel'',
      Params = IdParams \<lparr>TaskIdParams_ID = taskID, TaskIdParams_Metadata = None\<rparr>\<rparr>"

definition store1 :: InMemoryTaskManager where
  \<comment> \<open>one task \<open>t1\<close>, just submitted with message \<open>m1\<close>\<close>
  "store1 = snd (upsertTask ''2025-01-01T00:00:00Z''
                   (send_params ''t1'' ''s1'' (message ''user'' ''m1'')) NewInMemoryTaskManager)"

definition store2 :: InMemoryTaskManager where
  \<comment> \<open>\<open>t1\<close> after two more messages: its history is \<open>m1, m2, m3\<close>\<close>
  "store2 = snd (upsertTask ''2025-01-01T00:00:03Z''
                   (send_params ''t1'' ''s1'' (message ''user'' ''m3''))
                   (snd (upsertTask ''2025-01-01T00:00:02Z''
                           (send_params ''t1'' ''s1'' (message ''user'' ''m2'')) store1)))"

definition store_completed :: InMemoryTaskManager where
  \<comment> \<open>\<open>t1\<close> after a status update to \<open>completed\<close>\<close>
  "store_completed = snd (updateStore ''t1'' (status_of TaskCompleted None) None store1)"

definition store_working :: InMemoryTaskManager where
  "store_working = snd (updateStore ''t1'' (status_of TaskWorking None) None store1)"

definition payload1 :: jmap where
  "payload1 = Some [(''id'', IStr ''t1''), (''state'', IStr ''completed'')]"

definition payload2 :: jmap where
  "payload2 = Some [(''id'', IStr ''t1''), (''state'', IStr ''failed'')]"

definition payload3 :: jmap where
  \<comment> \<open>\<open>n\<close> is \<open>2^53 + 1\<close>, an \<open>int64\<close> that no \<open>float64\<close> holds\<close>
  "payload3 = Some [(''id'', IStr ''t1''), (''n'', INum 9007199254740993)]"

definition payload4 :: jmap where
  \<comment> \<open>\<open>n\<close> is \<open>2^53\<close>\<close>
  "payload4 = Some [(''id'', IStr ''t1''), (''n'', INum 9007199254740992)]"

definition header1 :: "(string \<times> iface) list" where
  "header1 = [(''kid'', IStr ''example-kid''), (''typ'', IStr ''JWT''), (''alg'', IStr ''RS256'')]"

definition claims1 :: "(string \<times> iface) list" where
  "claims1 = [(''iat'', INum 1000),
              (''request_body_sha256'', IStr ''sha256:{id:t1,state:completed};'')]"

definition parts1 :: jwt_parts where
  "parts1 = \<lparr>parts_header = header1, parts_claims = claims1,
             parts_signature = RSASignature 7 ''RS256'' header1 claims1\<rparr>"

definition claims3 :: "(string \<times> iface) list" where
  "claims3 = [(''iat'', INum 1000),
              (''request_body_sha256'', IStr ''sha256:{id:t1,n:9007199254740993};'')]"

definition parts3 :: jwt_parts where
  "parts3 = \<lparr>parts_header = header1, parts_claims = claims3,
             parts_signature = RSASignature 7 ''RS256'' header1 claims3\<rparr>"

definition claims4 :: "(string \<times> iface) list" where
  "claims4 = [(''iat'', INum 1000),
              (''request_body_sha256'', IStr ''sha256:{id:t1,n:9007199254740992};'')]"

definition parts4 :: jwt_parts where
  "parts4 = \<lparr>parts_header = header1, parts_claims = claims4,
             parts_signature = RSASignature 7 ''RS256'' header1 claims4\<rparr>"

text \<open>
  The \<open>float64\<close> nearest to a whole number, ties going to the even mantissa: what
  \<open>encoding/json\<close> stores when it decodes a number of the text into an \<open>interface{}\<close>
  (numbers beyond the range of \<open>float64\<close> apart).
\<close>

fun bitlen :: "nat \<Rightarrow> nat" where
  "bitlen n = (if n = 0 then 0 else Suc (bitlen (n div 2)))"

declare bitlen.simps [simp del]

definition float64_of_int :: "int \<Rightarrow> int" where
  "float64_of_int n =
     (let a = nat \<bar>n\<bar>;
          e = bitlen a - 53;
          q = a div 2 ^ e;
          r = a mod 2 ^ e
      in sgn n * int ((if 2 ^ e < 2 * r \<or> (2 ^ e = 2 * r \<and> odd q) then q + 1 else q) * 2 ^ e))"

definition decoded :: "string \<Rightarrow> int \<Rightarrow> jmap" where
  \<comment> \<open>the map decoded from the text of an object with the members \<open>id\<close> and \<open>n\<close>\<close>
  "decoded taskID n = Some [(''id'', IStr taskID), (''n'', INum (float64_of_int n))]"

text \<open>
  A library for the concrete runs: it encodes, marshals and decodes the payloads above as
  \<open>encoding/json\<close> does, up to the quotation marks, which are left out, and the line feed
  that \<open>Encode\<close> appends, which is written as a semicolon; the digest of a text is the
  text itself behind a prefix.
\<close>

definition test_packages :: packages where
  "test_packages =
     \<lparr>json_Encode = (\<lambda>m. if m = payload1 then Inr ''{id:t1,state:completed};''
                          else if m = payload2 then Inr ''{id:t1,state:failed};''
                          else if m = payload3 then Inr ''{id:t1,n:9007199254740993};''
                          else if m = payload4 then Inr ''{id:t1,n:9007199254740992};''
                          else if m = None then Inr ''null;''
                          else Inl (JSONError ''unsupported value'')),
      json_Marshal = (\<lambda>m. if m = payload1 then Inr ''{id:t1,state:completed}''
                           else if m = payload2 then Inr ''{id:t1,state:failed}''
                           else if m = payload3 then Inr ''{id:t1,n:9007199254740993}''
                           else if m = payload4 then Inr ''{id:t1,n:9007199254740992}''
                           else if m = None then Inr ''null''
                           else Inl (JSONError ''unsupported value'')),
      json_Unmarshal = (\<lambda>b. if b = ''{id:t1,state:completed}'' then (None, payload1)
                             else if b = ''{id:t1,state:failed}'' then (None, payload2)
                             else if b = ''{id:t1,n:9007199254740993}''
                               then (None, decoded ''t1'' 9007199254740993)
                             else if b = ''{id:t1,n:9007199254740992}''
                               then (None, decoded ''t1'' 9007199254740992)
                             else if b = ''null'' then (None, None)
                             else (Some (JSONError ''invalid character''), None)),
      json_Decode = (\<lambda>b. if b = ''{id:t1,state:completed}'' then Inr payload1
                          else if b = ''{id:t1,state:failed}'' then Inr payload2
                          else if b = ''{id:t1,n:9007199254740993}''
                            then Inr (decoded ''t1'' 9007199254740993)
                          else if b = ''{id:t1,n:9007199254740992}''
                            then Inr (decoded ''t1'' 9007199254740992)
                          else if b = ''null'' then Inr None
                          else Inl (JSONError ''invalid character'')),
      sha256_hex = (\<lambda>b. ''sha256:'' @ b),
      jwt_encode = (\<lambda>p. if p = parts1 then ''token1''
                         else if p = parts3 then ''token3''
                         else if p = parts4 then ''token4''
                         else ''token0''),
      jwt_decode = (\<lambda>t. if t = ''token1'' then Some parts1
                         else if t = ''token3'' then Some parts3
                         else if t = ''token4'' then Some parts4
                         else None),
      error_string = (\<lambda>e. ''error''),
      ServeMux_other = (\<lambda>r. Returns (http_Error ''404 page not found'' 404))\<rparr>"

definition sender1 :: PushNotificationSenderAuth where
  "sender1 = \<lparr>privateKey = Some 7, publicKeys = []\<rparr>"

definition receiver1 :: PushNotificationReceiverAuth where
  "receiver1 = \<lparr>publicKey = Some 7\<rparr>"

definition seconds :: "int \<Rightarrow> int" where
  "seconds n = n * 10 ^ 9"


definition completed_event :: event where
  "completed_event =
     StatusUpdate \<lparr>TaskStatusUpdateEvent_ID = ''t1'',
                   TaskStatusUpdateEvent_Status = status_of TaskCompleted None,
                   Final = True, TaskStatusUpdateEvent_Metadata = None\<rparr>"

definition working_event :: event where
  "working_event =
     StatusUpdate \<lparr>TaskStatusUpdateEvent_ID = ''t1'',
                   TaskStatusUpdateEvent_Status = status_of TaskWorking None,
                   Final = False, TaskStatusUpdateEvent_Metadata = None\<rparr>"

definition result_response :: "int \<Rightarrow> event \<Rightarrow> SendTaskStreamingResponse" where
  "result_response n ev =
     \<lparr>Result = Some ev, Error = None, SendTaskStreamingResponse_ID = INum n\<rparr>"

definition four_subscribers :: "action list" where
  "four_subscribers =
     [Subscribe ''t1'' False, Dequeue (INum 1) ''t1'' 1,
      Subscribe ''t1'' False, Dequeue (INum 2) ''t1'' 2,
      Subscribe ''t1'' False, Dequeue (INum 3) ''t1'' 3,
      Subscribe ''t1'' False, Dequeue (INum 4) ''t1'' 4]"

definition skipping_schedule :: "action list" where
  "skipping_schedule =
     four_subscribers @
     [Publish ''t1'' working_event,
      Next 0, Handoff 0 0, Next 0, Handoff 0 1, Next 0, Handoff 0 2, Next 0, Handoff 0 3,
      Next 0,
      Forward 0, Forward 2, Forward 3,
      Publish ''t1'' completed_event,
      Next 1, Handoff 1 0, Next 1,
      Forward 0, Remove 0, CloseResponse 0,
      Forward 1, Handoff 1 1,
      Next 1, Handoff 1 3, Next 1,
      Forward 1, Remove 1, CloseResponse 1,
      Forward 3, Remove 3, CloseResponse 3]"



section \<open>Properties of the task store\<close>

lemma elems_simps [simp]: "elems None = []" "elems (Some xs) = xs"
  by (simp_all add: elems_def)

lemma nat_int_diff: "0 < n \<Longrightarrow> nat (int k - n) = k - nat n"
  by arith

lemma store1_t1:
  "tasks store1 ''t1''
     = Some \<lparr>ID = ''t1'', SessionID = Some ''s1'',
             Status = \<lparr>State = TaskSubmitted, Message = None,
                       Timestamp = ''2025-01-01T00:00:00Z''\<rparr>,
             Artifacts = None, History = Some [message ''user'' ''m1''], Metadata = None\<rparr>"
  by (simp add: store1_def upsertTask_def send_params_def NewInMemoryTaskManager_def Let_def)

lemma store1_others: "k \<noteq> ''t1'' \<Longrightarrow> tasks store1 k = None"
  by (simp add: store1_def upsertTask_def send_params_def NewInMemoryTaskManager_def Let_def)

subsection \<open>CreateOrAppend\<close>

text \<open>
  Claim C3. \<open>upsertTask\<close> is create-once. On an identifier the store does not hold, it
  creates the task with state \<open>submitted\<close> and the one-message history. On an identifier
  the store holds, it returns the stored task with the message appended at the end of
  its history and nothing else changed, the status in particular. In both cases the task
  returned is the one now stored under the identifier, and no other entry changes.
\<close>

theorem upsertTask_create_once:
  "(tasks tm (TaskSendParams_ID p) = None \<longrightarrow>
      State (Status (fst (upsertTask now p tm))) = TaskSubmitted
    \<and> History (fst (upsertTask now p tm)) = Some [TaskSendParams_Message p])
 \<and> (\<forall>t. tasks tm (TaskSendParams_ID p) = Some t \<longrightarrow>
      fst (upsertTask now p tm)
        = t\<lparr>History := Some (elems (History t) @ [TaskSendParams_Message p])\<rparr>
    \<and> Status (fst (upsertTask now p tm)) = Status t)
 \<and> tasks (snd (upsertTask now p tm))
      = (tasks tm)(TaskSendParams_ID p \<mapsto> fst (upsertTask now p tm))"
  by (cases "tasks tm (TaskSendParams_ID p)")
     (simp_all add: upsertTask_def Let_def append_slice_def)

theorem upsertTask_create_once_witness:
  "tasks NewInMemoryTaskManager ''t1'' = None
 \<and> map_option (State \<circ> Status) (tasks store1 ''t1'') = Some TaskSubmitted
 \<and> map_option History (tasks store1 ''t1'') = Some (Some [message ''user'' ''m1''])
 \<and> map_option (State \<circ> Status) (tasks store2 ''t1'') = Some TaskSubmitted
 \<and> map_option History (tasks store2 ''t1'')
      = Some (Some [message ''user'' ''m1'', message ''user'' ''m2'', message ''user'' ''m3''])"
proof -
  let ?p1 = "send_params ''t1'' ''s1'' (message ''user'' ''m1'')"
  let ?p2 = "send_params ''t1'' ''s1'' (message ''user'' ''m2'')"
  let ?p3 = "send_params ''t1'' ''s1'' (message ''user'' ''m3'')"
  let ?s2 = "snd (upsertTask ''2025-01-01T00:00:02Z'' ?p2 store1)"
  have absent: "tasks NewInMemoryTaskManager (TaskSendParams_ID ?p1) = None"
    by (simp add: NewInMemoryTaskManager_def)
  note first = upsertTask_create_once
                 [of NewInMemoryTaskManager ?p1 "''2025-01-01T00:00:00Z''"]
  have one: "tasks store1 ''t1''
      = Some (fst (upsertTask ''2025-01-01T00:00:00Z'' ?p1 NewInMemoryTaskManager))"
    using first by (simp add: store1_def send_params_def)
  note second = upsertTask_create_once [of store1 ?p2 "''2025-01-01T00:00:02Z''"]
  have two: "tasks ?s2 ''t1'' = Some (fst (upsertTask ''2025-01-01T00:00:02Z'' ?p2 store1))"
    using second by (simp add: send_params_def)
  note third = upsertTask_create_once [of ?s2 ?p3 "''2025-01-01T00:00:03Z''"]
  have three: "tasks store2 ''t1''
      = Some (fst (upsertTask ''2025-01-01T00:00:03Z'' ?p3 ?s2))"
    using third by (simp add: store2_def send_params_def)
  have id1: "TaskSendParams_ID ?p1 = ''t1''" "TaskSendParams_Message ?p1 = message ''user'' ''m1''"
    and id2: "TaskSendParams_ID ?p2 = ''t1''" "TaskSendParams_Message ?p2 = message ''user'' ''m2''"
    and id3: "TaskSendParams_ID ?p3 = ''t1''" "TaskSendParams_Message ?p3 = message ''user'' ''m3''"
    by (simp_all add: send_params_def)
  show ?thesis
    using absent first second third one two three
    unfolding id1 id2 id3
    by simp
qed

subsection \<open>UpdateStatus\<close>

text \<open>
  Claim C4. On a stored task, \<open>updateStore\<close> succeeds and stores (and returns) the task
  with its status replaced by the new status as a whole, with the new status's message,
  when it has one, appended at the end of the history, and with the supplied artifacts
  appended behind the stored ones; every other field and every other task is as before.
  On an identifier the store does not hold it returns the error \<open>task not found\<close> and the
  store is unchanged.
\<close>

theorem updateStore_replaces_and_appends:
  "(\<forall>t. tasks tm taskID = Some t \<longrightarrow>
      updateStore taskID status artifacts tm
        = (let t' = t\<lparr>Status := status,
                       History := (case Message status of
                                     None \<Rightarrow> History t
                                   | Some m \<Rightarrow> Some (elems (History t) @ [m])),
                       Artifacts := (case artifacts of
                                       None \<Rightarrow> Artifacts t
                                     | Some new \<Rightarrow> Some (elems (Artifacts t) @ new))\<rparr>
           in (Inr t', tm\<lparr>tasks := (tasks tm)(taskID \<mapsto> t')\<rparr>)))
 \<and> (tasks tm taskID = None \<longrightarrow>
      updateStore taskID status artifacts tm = (Inl TaskNotFound, tm))"
proof (intro conjI allI impI)
  fix t assume stored: "tasks tm taskID = Some t"
  show "updateStore taskID status artifacts tm
        = (let t' = t\<lparr>Status := status,
                       History := (case Message status of
                                     None \<Rightarrow> History t
                                   | Some m \<Rightarrow> Some (elems (History t) @ [m])),
                       Artifacts := (case artifacts of
                                       None \<Rightarrow> Artifacts t
                                     | Some new \<Rightarrow> Some (elems (Artifacts t) @ new))\<rparr>
           in (Inr t', tm\<lparr>tasks := (tasks tm)(taskID \<mapsto> t')\<rparr>))"
  proof (cases artifacts)
    case None
    with stored show ?thesis
      by (cases "Message status") (simp_all add: updateStore_def Let_def append_slice_def)
  next
    case (Some new)
    with stored show ?thesis
      by (cases "Message status"; cases "Artifacts t")
         (simp_all add: updateStore_def Let_def append_slice_def)
  qed
next
  assume "tasks tm taskID = None"
  then show "updateStore taskID status artifacts tm = (Inl TaskNotFound, tm)"
    by (simp add: updateStore_def)
qed

theorem updateStore_replaces_and_appends_witness:
  "(\<exists>t. tasks store1 ''t1'' = Some t)
 \<and> map_option Status
      (tasks (snd (updateStore ''t1'' (status_of TaskWorking (Some (message ''agent'' ''on it'')))
                     (Some [artifact1]) store1)) ''t1'')
      = Some (status_of TaskWorking (Some (message ''agent'' ''on it'')))
 \<and> map_option History
      (tasks (snd (updateStore ''t1'' (status_of TaskWorking (Some (message ''agent'' ''on it'')))
                     (Some [artifact1]) store1)) ''t1'')
      = Some (Some [message ''user'' ''m1'', message ''agent'' ''on it''])
 \<and> map_option Artifacts
      (tasks (snd (updateStore ''t1'' (status_of TaskWorking (Some (message ''agent'' ''on it'')))
                     (Some [artifact1]) store1)) ''t1'')
      = Some (Some [artifact1])
 \<and> tasks store1 ''t2'' = None
 \<and> updateStore ''t2'' (status_of TaskWorking None) (Some [artifact1]) store1
      = (Inl TaskNotFound, store1)"
proof -
  have absent: "tasks store1 ''t2'' = None"
    by (simp add: store1_others)
  note a = updateStore_replaces_and_appends
             [of store1 "''t1''" "status_of TaskWorking (Some (message ''agent'' ''on it''))"
                "Some [artifact1]"]
  note b = updateStore_replaces_and_appends
             [of store1 "''t2''" "status_of TaskWorking None" "Some [artifact1]"]
  have msg: "Message (status_of TaskWorking (Some (message ''agent'' ''on it'')))
               = Some (message ''agent'' ''on it'')"
    by (simp add: status_of_def)
  show ?thesis
    using absent a b by (simp add: store1_t1 Let_def msg)
qed

subsection \<open>Get\<close>

text \<open>
  Claim C5. For a stored task, \<open>OnGetTask\<close> returns a copy that differs from the stored
  task in its history only, and leaves the manager as it was. With a positive limit \<open>n\<close>
  the copy's history is the last \<open>min n (length history)\<close> stored messages, in stored
  order: the stored history is some older messages followed by exactly the copy's. With
  no limit (\<open>nil\<close>) the copy's history is empty.
\<close>

theorem OnGetTask_history_limit:
  assumes "Params request = QueryParams q" and "tasks tm (TaskIdParams_ID q) = Some t"
  shows "\<exists>snap. OnGetTask request tm = (Returns (Some snap), tm)
      \<and> snap = t\<lparr>History := History snap\<rparr>
      \<and> (HistoryLength q = None \<longrightarrow> History snap = Some [])
      \<and> (\<forall>n. HistoryLength q = Some n \<and> 0 < n \<longrightarrow>
            int (length (elems (History snap))) = min n (int (length (elems (History t))))
          \<and> elems (History snap)
              = drop (length (elems (History t)) - nat n) (elems (History t))
          \<and> (\<exists>older. elems (History t) = older @ elems (History snap)))"
proof -
  let ?h = "elems (History t)"
  let ?snap = "appendTaskHistory t (HistoryLength q)"
  have run: "OnGetTask request tm = (Returns (Some ?snap), tm)"
    using assms by (simp add: OnGetTask_def)
  have frame: "?snap = t\<lparr>History := History ?snap\<rparr>"
    by (simp add: appendTaskHistory_def split: option.splits)
  have nil: "HistoryLength q = None \<longrightarrow> History ?snap = Some []"
    by (simp add: appendTaskHistory_def)
  have pos: "elems (History ?snap) = drop (length ?h - nat n) ?h"
    if "HistoryLength q = Some n" "0 < n" for n
    using that
    by (auto simp add: appendTaskHistory_def len_def reslice_from_def elems_def nat_int_diff
          split: option.splits)
  have lim: "int (length (elems (History ?snap))) = min n (int (length ?h))
      \<and> elems (History ?snap) = drop (length ?h - nat n) ?h
      \<and> (\<exists>older. ?h = older @ elems (History ?snap))"
    if "HistoryLength q = Some n \<and> 0 < n" for n
  proof -
    from that have that: "HistoryLength q = Some n" "0 < n" by simp_all
    have eq: "elems (History ?snap) = drop (length ?h - nat n) ?h"
      using that by (rule pos)
    have "?h = take (length ?h - nat n) ?h @ elems (History ?snap)"
      by (simp add: eq)
    then have "\<exists>older. ?h = older @ elems (History ?snap)" ..
    moreover have "int (length (elems (History ?snap))) = min n (int (length ?h))"
      using that(2) unfolding eq by (auto simp add: min_def)
    ultimately show ?thesis using eq by blast
  qed
  show ?thesis
  proof (rule exI [of _ ?snap], intro conjI allI impI)
    show "OnGetTask request tm = (Returns (Some ?snap), tm)" by (rule run)
    show "?snap = t\<lparr>History := History ?snap\<rparr>" by (rule frame)
    show "History ?snap = Some []" if "HistoryLength q = None" using nil that by simp
  qed (use lim in blast)+
qed

theorem OnGetTask_history_limit_witness:
  "fst (OnGetTask (get_request ''t1'' (Some 2)) store2)
     = Returns (Some \<lparr>ID = ''t1'', SessionID = Some ''s1'',
                      Status = \<lparr>State = TaskSubmitted, Message = None,
                                Timestamp = ''2025-01-01T00:00:00Z''\<rparr>,
                      Artifacts = None,
                      History = Some [message ''user'' ''m2'', message ''user'' ''m3''],
                      Metadata = None\<rparr>)
 \<and> snd (OnGetTask (get_request ''t1'' (Some 2)) store2) = store2
 \<and> map_option (elems \<circ> History)
      (case fst (OnGetTask (get_request ''t1'' (Some 10)) store2) of
         Returns r \<Rightarrow> r | Panics \<Rightarrow> None)
      = Some [message ''user'' ''m1'', message ''user'' ''m2'', message ''user'' ''m3'']
 \<and> map_option History
      (case fst (OnGetTask (get_request ''t1'' None) store2) of
         Returns r \<Rightarrow> r | Panics \<Rightarrow> None)
      = Some (Some [])"
proof -
  let ?h = "[message ''user'' ''m1'', message ''user'' ''m2'', message ''user'' ''m3'']"
  let ?t = "\<lparr>ID = ''t1'', SessionID = Some ''s1'',
             Status = \<lparr>State = TaskSubmitted, Message = None,
                       Timestamp = ''2025-01-01T00:00:00Z''\<rparr>,
             Artifacts = None, History = Some ?h, Metadata = None\<rparr>"
  let ?q = "\<lambda>n. \<lparr>TaskIdParams_ID = ''t1'', TaskIdParams_Metadata = None, HistoryLength = n\<rparr>"
  have stored: "tasks store2 ''t1'' = Some ?t"
    by (simp add: store2_def upsertTask_def send_params_def store1_t1 Let_def
          append_slice_def)
  have p: "Params (get_request ''t1'' n) = QueryParams (?q n)" for n
    by (simp add: get_request_def)
  have s: "tasks store2 (TaskIdParams_ID (?q n)) = Some ?t" for n
    using stored by simp
  obtain snap2 where two:
      "OnGetTask (get_request ''t1'' (Some 2)) store2 = (Returns (Some snap2), store2)"
      "snap2 = ?t\<lparr>History := History snap2\<rparr>"
      "elems (History snap2) = drop (length ?h - nat 2) ?h"
    using OnGetTask_history_limit [OF p s, of "Some 2"] by auto
  have h2: "History snap2 = Some [message ''user'' ''m2'', message ''user'' ''m3'']"
    using two(1) stored
    by (auto simp add: OnGetTask_def get_request_def appendTaskHistory_def len_def
          reslice_from_def)
  have s2: "snap2 = ?t\<lparr>History := Some [message ''user'' ''m2'', message ''user'' ''m3'']\<rparr>"
    using two(2) unfolding h2 .
  obtain snap10 where ten:
      "OnGetTask (get_request ''t1'' (Some 10)) store2 = (Returns (Some snap10), store2)"
      "elems (History snap10) = drop (length ?h - nat 10) ?h"
    using OnGetTask_history_limit [OF p s, of "Some 10"] by auto
  obtain snap0 where none:
      "OnGetTask (get_request ''t1'' None) store2 = (Returns (Some snap0), store2)"
      "History snap0 = Some []"
    using OnGetTask_history_limit [OF p s, of None] by auto
  show ?thesis
    using two(1) ten none by (simp add: s2)
qed

lemma store_completed_t1:
  "tasks store_completed ''t1''
     = Some \<lparr>ID = ''t1'', SessionID = Some ''s1'',
             Status = status_of TaskCompleted None,
             Artifacts = None, History = Some [message ''user'' ''m1''], Metadata = None\<rparr>"
  by (simp add: store_completed_def updateStore_def store1_t1 Let_def status_of_def)

lemma store_working_t1:
  "tasks store_working ''t1''
     = Some \<lparr>ID = ''t1'', SessionID = Some ''s1'',
             Status = status_of TaskWorking None,
             Artifacts = None, History = Some [message ''user'' ''m1''], Metadata = None\<rparr>"
  by (simp add: store_working_def updateStore_def store1_t1 Let_def status_of_def)

subsection \<open>Terminal states\<close>

text \<open>
  Claim C2 says that a task whose state is \<open>completed\<close>, \<open>canceled\<close> or \<open>failed\<close> accepts no
  further transition: a later status update fails and the state stays. \<open>updateStore\<close>
  never looks at the stored state. On the store holding \<open>t1\<close> in state \<open>completed\<close>, an
  update to \<open>working\<close> does not fail and the stored state is \<open>working\<close> afterwards.
\<close>

theorem terminal_state_overwritten:
  "map_option (State \<circ> Status) (tasks store_completed ''t1'') = Some TaskCompleted
 \<and> terminal TaskCompleted
 \<and> \<not> isl (fst (updateStore ''t1'' (status_of TaskWorking None) None store_completed))
 \<and> map_option (State \<circ> Status)
      (tasks (snd (updateStore ''t1'' (status_of TaskWorking None) None store_completed)) ''t1'')
      = Some TaskWorking"
  by (simp add: store_completed_t1 updateStore_def Let_def status_of_def terminal_def)

text \<open>
  Claim C2 as amended. The store treats no state as terminal: a status update on a
  stored task is accepted whatever the stored state is, \<open>completed\<close>, \<open>canceled\<close> and
  \<open>failed\<close> included, and the stored status becomes the new one. The stored status
  changes in no other way: \<open>upsertTask\<close> leaves the status of every stored task as it
  is, and \<open>OnGetTask\<close> and \<open>OnCancelTask\<close> leave the whole manager as it is.
\<close>

theorem updateStore_accepts_any_transition:
  "(\<forall>t. tasks tm taskID = Some t \<longrightarrow>
      \<not> isl (fst (updateStore taskID status artifacts tm))
    \<and> map_option Status (tasks (snd (updateStore taskID status artifacts tm)) taskID)
        = Some status)
 \<and> (\<forall>k t. tasks tm k = Some t \<longrightarrow>
      map_option Status (tasks (snd (upsertTask now p tm)) k) = Some (Status t))
 \<and> snd (OnGetTask request tm) = tm
 \<and> snd (OnCancelTask request tm) = tm"
proof (intro conjI allI impI)
  fix t assume stored: "tasks tm taskID = Some t"
  then show "\<not> isl (fst (updateStore taskID status artifacts tm))"
    by (simp add: updateStore_def Let_def)
  from stored
  show "map_option Status (tasks (snd (updateStore taskID status artifacts tm)) taskID)
          = Some status"
    by (simp add: updateStore_def Let_def split: option.splits)
next
  fix k t assume "tasks tm k = Some t"
  then show "map_option Status (tasks (snd (upsertTask now p tm)) k) = Some (Status t)"
    by (cases "tasks tm (TaskSendParams_ID p)") (auto simp add: upsertTask_def Let_def)
next
  show "snd (OnGetTask request tm) = tm"
    by (simp add: OnGetTask_def split: params.splits option.splits)
  show "snd (OnCancelTask request tm) = tm"
    by (simp add: OnCancelTask_def split: params.splits option.splits)
qed

theorem updateStore_accepts_any_transition_witness:
  "(\<exists>t. tasks store_completed ''t1'' = Some t \<and> terminal (State (Status t)))
 \<and> \<not> isl (fst (updateStore ''t1'' (status_of TaskFailed None) None store_completed))
 \<and> map_option Status
      (tasks (snd (updateStore ''t1'' (status_of TaskFailed None) None store_completed)) ''t1'')
      = Some (status_of TaskFailed None)
 \<and> map_option Status
      (tasks (snd (upsertTask ''2025-01-01T00:00:09Z''
                     (send_params ''t1'' ''s1'' (message ''user'' ''again'')) store_completed))
             ''t1'')
      = Some (status_of TaskCompleted None)"
proof -
  note u = updateStore_accepts_any_transition
             [of store_completed "''t1''" "status_of TaskFailed None" None
                "''2025-01-01T00:00:09Z''"
                "send_params ''t1'' ''s1'' (message ''user'' ''again'')"
                "cancel_request ''t1''"]
  let ?t = "\<lparr>ID = ''t1'', SessionID = Some ''s1'', Status = status_of TaskCompleted None,
             Artifacts = None, History = Some [message ''user'' ''m1''], Metadata = None\<rparr>"
  from u have upd:
      "\<not> isl (fst (updateStore ''t1'' (status_of TaskFailed None) None store_completed))
     \<and> map_option Status
          (tasks (snd (updateStore ''t1'' (status_of TaskFailed None) None store_completed))
                 ''t1'')
          = Some (status_of TaskFailed None)"
    using store_completed_t1 by blast
  from u have ups:
      "map_option Status
         (tasks (snd (upsertTask ''2025-01-01T00:00:09Z''
                        (send_params ''t1'' ''s1'' (message ''user'' ''again''))
                        store_completed)) ''t1'')
         = Some (Status ?t)"
    using store_completed_t1 by blast
  have reached: "tasks store_completed ''t1'' = Some ?t \<and> terminal (State (Status ?t))"
    by (simp add: store_completed_t1 terminal_def status_of_def)
  from upd ups reached show ?thesis
    by (intro conjI exI [of _ ?t]) simp_all
qed

subsection \<open>Cancel\<close>

text \<open>
  Claim C9 says that \<open>Cancel\<close> moves a task that is not in a terminal state to \<open>canceled\<close>
  and returns it. \<open>OnCancelTask\<close> looks the task up and returns an empty result on both
  paths. On the store holding \<open>t1\<close> in state \<open>working\<close>, it returns no task and the
  stored state is still \<open>working\<close>.
\<close>

theorem cancel_leaves_working_task:
  "map_option (State \<circ> Status) (tasks store_working ''t1'') = Some TaskWorking
 \<and> \<not> terminal TaskWorking
 \<and> fst (OnCancelTask (cancel_request ''t1'') store_working) = Returns None
 \<and> map_option (State \<circ> Status)
      (tasks (snd (OnCancelTask (cancel_request ''t1'') store_working)) ''t1'')
      = Some TaskWorking"
  by (simp add: store_working_t1 OnCancelTask_def cancel_request_def status_of_def terminal_def)

text \<open>
  Claim C9 as amended. For every task identifier, \<open>OnCancelTask\<close> returns an empty
  result and leaves the manager as it is: a task that is absent, one that is not in a
  terminal state and one that is are answered alike, and no task is moved to
  \<open>canceled\<close>.
\<close>

theorem OnCancelTask_changes_nothing:
  assumes "Params request = IdParams p"
  shows "OnCancelTask request tm = (Returns None, tm)"
  using assms by (simp add: OnCancelTask_def split: option.splits)

theorem OnCancelTask_changes_nothing_witness:
  "OnCancelTask (cancel_request ''t1'') store_working = (Returns None, store_working)
 \<and> OnCancelTask (cancel_request ''t1'') store_completed = (Returns None, store_completed)
 \<and> OnCancelTask (cancel_request ''nope'') store_working = (Returns None, store_working)"
proof -
  have p: "Params (cancel_request k)
             = IdParams \<lparr>TaskIdParams_ID = k, TaskIdParams_Metadata = None\<rparr>" for k
    by (simp add: cancel_request_def)
  show ?thesis
    using OnCancelTask_changes_nothing [OF p, of "''t1''" store_working]
          OnCancelTask_changes_nothing [OF p, of "''t1''" store_completed]
          OnCancelTask_changes_nothing [OF p, of "''nope''" store_working]
    by simp
qed

section \<open>Properties of push-notification authentication\<close>

subsection \<open>The age of a token\<close>

lemma wrap64_id: "- (2 ^ 63) \<le> x \<Longrightarrow> x < 2 ^ 63 \<Longrightarrow> wrap64 x = x"
  by (simp add: wrap64_def)

lemma wrap64_above: "2 ^ 63 \<le> x \<Longrightarrow> x < 2 ^ 64 \<Longrightarrow> wrap64 x = x - 2 ^ 64"
proof -
  assume a: "2 ^ 63 \<le> x" "x < 2 ^ 64"
  have "x + 2 ^ 63 = (x - 2 ^ 63) + 2 ^ 64"
    by simp
  then have "(x + 2 ^ 63) mod 2 ^ 64 = (x - 2 ^ 63) mod 2 ^ 64"
    by (simp only: mod_add_self2)
  also have "\<dots> = x - 2 ^ 63"
    using a by (simp add: mod_pos_pos_trivial)
  finally show ?thesis
    by (simp add: wrap64_def)
qed

lemma since_unix:
  "time_Since now (time_Unix sec)
     = saturate (now + (unixToInternal - wrap64 (sec + unixToInternal)) * 10 ^ 9)"
proof -
  have "(now div 10 ^ 9 + unixToInternal - wrap64 (sec + unixToInternal)) * 10 ^ 9
          + (now mod 10 ^ 9 - 0)
        = (now div 10 ^ 9 * 10 ^ 9 + now mod 10 ^ 9)
          + (unixToInternal - wrap64 (sec + unixToInternal)) * 10 ^ 9"
    by (simp only: algebra_simps)
  also have "\<dots> = now + (unixToInternal - wrap64 (sec + unixToInternal)) * 10 ^ 9"
    by (simp only: div_mult_mod_eq)
  finally have e: "(now div 10 ^ 9 + unixToInternal - wrap64 (sec + unixToInternal)) * 10 ^ 9
          + (now mod 10 ^ 9 - 0) = now + (unixToInternal - wrap64 (sec + unixToInternal)) * 10 ^ 9" .
  show ?thesis
    unfolding time_Since_def time_Sub_def time_Now_def time_Unix_def
    by (simp only: Time.simps e)
qed

lemma saturate_five: "(five_minutes < saturate d) = (five_minutes < d)"
  by (simp add: saturate_def minDuration_def maxDuration_def five_minutes_def)

lemma age_of_iat:
  assumes "- (2 ^ 63) \<le> iat" and "iat + unixToInternal < 2 ^ 63"
  shows "(five_minutes < time_Since now (time_Unix (int64_of_float64 iat)))
           = (five_minutes < now - iat * 10 ^ 9)"
proof -
  have small: "iat < 2 ^ 63"
    using assms(2) by (simp add: unixToInternal_def)
  have conv: "int64_of_float64 iat = iat"
    using assms(1) small by (simp add: int64_of_float64_def)
  have "- (2 ^ 63) \<le> iat + unixToInternal"
    using assms(1) by (simp add: unixToInternal_def)
  then have w: "wrap64 (iat + unixToInternal) = iat + unixToInternal"
    using assms(2) by (rule wrap64_id)
  have d: "now + (unixToInternal - (iat + unixToInternal)) * 10 ^ 9 = now - iat * 10 ^ 9"
    by (simp add: algebra_simps)
  show ?thesis
    unfolding conv since_unix w d by (rule saturate_five)
qed

lemma remote_iat_expired:
  assumes "0 \<le> now" and "iat < - (2 ^ 63) \<or> 2 ^ 63 \<le> iat + unixToInternal"
  shows "five_minutes < time_Since now (time_Unix (int64_of_float64 iat))"
proof (cases "- (2 ^ 63) \<le> iat \<and> iat < 2 ^ 63")
  case True
  then have conv: "int64_of_float64 iat = iat"
    by (simp add: int64_of_float64_def)
  from True assms(2) have lo: "2 ^ 63 \<le> iat + unixToInternal"
    by auto
  from True have hi: "iat + unixToInternal < 2 ^ 64"
    by (simp add: unixToInternal_def)
  have w: "wrap64 (iat + unixToInternal) = iat + unixToInternal - 2 ^ 64"
    using lo hi by (rule wrap64_above)
  have "five_minutes < now + (unixToInternal - (iat + unixToInternal - 2 ^ 64)) * 10 ^ 9"
    using True assms(1) by (simp add: five_minutes_def algebra_simps)
  then show ?thesis
    unfolding conv since_unix w by (simp only: saturate_five)
next
  case False
  then have conv: "int64_of_float64 iat = - (2 ^ 63)"
    unfolding int64_of_float64_def by (rule if_not_P)
  have w: "wrap64 (- (2 ^ 63) + unixToInternal) = - (2 ^ 63) + unixToInternal"
    by (rule wrap64_id) (simp_all add: unixToInternal_def)
  have "five_minutes < now + (unixToInternal - (- (2 ^ 63) + unixToInternal)) * 10 ^ 9"
    using assms(1) by (simp add: five_minutes_def)
  then show ?thesis
    unfolding conv since_unix w by (simp only: saturate_five)
qed

lemma nearest_int64_expired:
  assumes "0 \<le> now"
  shows "five_minutes < time_Since now (time_Unix (2 ^ 63 - 1))"
proof -
  have "int64_of_float64 (2 ^ 63 - 1) = 2 ^ 63 - 1"
    by (simp add: int64_of_float64_def)
  with remote_iat_expired [OF assms, of "2 ^ 63 - 1"] show ?thesis
    by (simp add: unixToInternal_def)
qed

subsection \<open>Tokens\<close>

lemma rsa256: "is_SigningMethodRSA ''RS256''"
  by (simp add: is_SigningMethodRSA_def)

lemma Parse_accepts:
  assumes "jwt_decode lib tokenStr = Some parts"
    and "map_of (parts_header parts) ''alg'' = Some (IStr alg)"
    and "is_SigningMethodRSA alg"
    and "publicKey r = Some k"
    and "parts_signature parts = RSASignature k alg (parts_header parts) (parts_claims parts)"
    and "claims_valid now (parts_claims parts)"
  shows "Parse lib now tokenStr (keyFunc r)
           = Returns (Inr \<lparr>Raw = tokenStr, Token_Method = alg, Token_Header = parts_header parts,
                            Claims = parts_claims parts,
                            Signature = Some (parts_signature parts), Valid = True\<rparr>)"
proof -
  have "alg \<in> set signing_methods"
    using assms(3) by (auto simp add: is_SigningMethodRSA_def signing_methods_def)
  then show ?thesis
    using assms by (simp add: Parse_def keyFunc_def Let_def)
qed

lemma VerifyToken_accepted:
  assumes "jwt_decode lib tokenStr = Some parts"
    and "map_of (parts_header parts) ''alg'' = Some (IStr alg)"
    and "is_SigningMethodRSA alg"
    and "publicKey r = Some k"
    and "parts_signature parts = RSASignature k alg (parts_header parts) (parts_claims parts)"
    and "claims_valid now (parts_claims parts)"
    and "map_of (parts_claims parts) ''iat'' = Some (INum iat)"
  shows "VerifyToken lib r now tokenStr
           = (if five_minutes < time_Since now (time_Unix (int64_of_float64 iat))
              then Returns (Some TokenExpired) else Returns None)"
  using assms(7) by (simp add: VerifyToken_def Parse_accepts [OF assms(1-6)])

lemma VerifyPushNotification_accepted:
  assumes "Header_Get (Header req) ''Authorization'' = ''Bearer '' @ tokenStr"
    and "jwt_decode lib tokenStr = Some parts"
    and "map_of (parts_header parts) ''alg'' = Some (IStr alg)"
    and "is_SigningMethodRSA alg"
    and "publicKey r = Some k"
    and "parts_signature parts = RSASignature k alg (parts_header parts) (parts_claims parts)"
    and "claims_valid now (parts_claims parts)"
    and "map_of (parts_claims parts) ''iat'' = Some (INum iat)"
  shows "VerifyPushNotification lib r now req
           = (if five_minutes < time_Since now (time_Unix (int64_of_float64 iat))
              then Returns (False, Some TokenExpired)
              else if map_of (parts_claims parts) ''request_body_sha256''
                        = Some (IStr (received_digest lib (Body req)))
              then Returns (True, None)
              else Returns (False, Some DigestMismatch))"
  using assms(1,8)
  by (simp add: VerifyPushNotification_def HasPrefix_def TrimPrefix_def Let_def
        Parse_accepts [OF assms(2-7)] received_digest_def)

text \<open>
  A token whose \<open>iat\<close> is not a Unix second that a \<open>time.Time\<close> holds is rejected as
  expired, by both verifiers.
\<close>

lemma VerifyToken_remote_iat:
  assumes "jwt_decode lib tokenStr = Some parts"
    and "map_of (parts_header parts) ''alg'' = Some (IStr alg)"
    and "is_SigningMethodRSA alg"
    and "publicKey r = Some k"
    and "parts_signature parts = RSASignature k alg (parts_header parts) (parts_claims parts)"
    and "claims_valid now (parts_claims parts)"
    and "map_of (parts_claims parts) ''iat'' = Some (INum iat)"
    and "0 \<le> now"
    and "iat < - (2 ^ 63) \<or> 2 ^ 63 \<le> iat + unixToInternal"
  shows "VerifyToken lib r now tokenStr = Returns (Some TokenExpired)"
  by (simp add: VerifyToken_accepted [OF assms(1-7)] remote_iat_expired [OF assms(8,9)])

lemma VerifyPushNotification_remote_iat:
  assumes "Header_Get (Header req) ''Authorization'' = ''Bearer '' @ tokenStr"
    and "jwt_decode lib tokenStr = Some parts"
    and "map_of (parts_header parts) ''alg'' = Some (IStr alg)"
    and "is_SigningMethodRSA alg"
    and "publicKey r = Some k"
    and "parts_signature parts = RSASignature k alg (parts_header parts) (parts_claims parts)"
    and "claims_valid now (parts_claims parts)"
    and "map_of (parts_claims parts) ''iat'' = Some (INum iat)"
    and "0 \<le> now"
    and "iat < - (2 ^ 63) \<or> 2 ^ 63 \<le> iat + unixToInternal"
  shows "VerifyPushNotification lib r now req = Returns (False, Some TokenExpired)"
  by (simp add: VerifyPushNotification_accepted [OF assms(1-8)]
        remote_iat_expired [OF assms(9,10)])

lemma issued_parts_simps:
  "map_of (parts_header (issued_parts k now d)) ''alg'' = Some (IStr ''RS256'')"
  "parts_signature (issued_parts k now d)
     = RSASignature k ''RS256'' (parts_header (issued_parts k now d))
         (parts_claims (issued_parts k now d))"
  "claims_valid t (parts_claims (issued_parts k now d))"
  "map_of (parts_claims (issued_parts k now d)) ''iat'' = Some (INum (now div 10 ^ 9))"
  "map_of (parts_claims (issued_parts k now d)) ''request_body_sha256'' = Some (IStr d)"
  by (simp_all add: issued_parts_def Let_def claims_valid_def)

lemma GenerateJWT_issues:
  assumes "GenerateJWT lib s now payload = Returns (Inr token)"
  shows "\<exists>k d. privateKey s = Some k \<and> calculateRequestBodySHA256 lib payload = Inr d
             \<and> token = jwt_encode lib (issued_parts k now d)"
  using assms
  by (auto simp add: GenerateJWT_def SignedString_def NewWithClaims_def map_set_def
        is_SigningMethodRSA_def issued_parts_def Let_def
        split: sum.splits option.splits)

lemma sign1: "GenerateJWT test_packages sender1 (seconds 1000 + 500) payload1 = Returns (Inr ''token1'')"
  by (simp add: GenerateJWT_def calculateRequestBodySHA256_def test_packages_def payload1_def
      NewWithClaims_def map_set_def SignedString_def is_SigningMethodRSA_def sender1_def Let_def
      parts1_def header1_def claims1_def seconds_def)

lemma test_codec:
  "jwt_decode test_packages ''token1'' = Some parts1"
  "Decode test_packages ''{id:t1,state:failed}'' = Inr payload2"
  "Decode test_packages [] = Inl EOF"
  "jwt_decode test_packages ''token3'' = Some parts3"
  "jwt_decode test_packages ''token4'' = Some parts4"
  by (simp_all add: test_packages_def Decode_def)

lemma parts1_simps:
  "map_of (parts_header parts1) ''alg'' = Some (IStr ''RS256'')"
  "is_SigningMethodRSA ''RS256''"
  "publicKey receiver1 = Some 7"
  "parts_signature parts1 = RSASignature 7 ''RS256'' (parts_header parts1) (parts_claims parts1)"
  "map_of (parts_claims parts1) ''iat'' = Some (INum 1000)"
  "map_of (parts_claims parts1) ''request_body_sha256''
     = Some (IStr ''sha256:{id:t1,state:completed};'')"
  "claims_valid now (parts_claims parts1)"
  by (simp_all add: parts1_def header1_def claims1_def is_SigningMethodRSA_def receiver1_def
        claims_valid_def)

lemma iat_1000:
  "(five_minutes < time_Since now (time_Unix (int64_of_float64 1000)))
     = (five_minutes < now - seconds 1000)"
  using age_of_iat [of 1000 now] by (simp add: unixToInternal_def seconds_def)


subsection \<open>Sign, then verify\<close>

text \<open>
  What the verifier answers to a request that carries a token \<open>GenerateJWT\<close> has issued,
  when the verifier holds the public half of the signer's key and the compact form of the
  token decodes to what it was made from: after the five minutes the token has expired;
  before, the request verifies exactly when the digest of its body, decoded and encoded
  again, is the digest that was signed.
\<close>

lemma VerifyPushNotification_issued:
  assumes sign: "GenerateJWT lib s t_sign payload = Returns (Inr token)"
    and codec: "\<forall>parts. jwt_encode lib parts = token \<longrightarrow> jwt_decode lib token = Some parts"
    and trust: "publicKey r = privateKey s"
    and digest: "calculateRequestBodySHA256 lib payload = Inr d"
    and carried: "Header_Get (Header req) ''Authorization'' = ''Bearer '' @ token"
  shows "VerifyPushNotification lib r t_verify req
           = (if five_minutes < time_Since t_verify (time_Unix (int64_of_float64 (t_sign div 10 ^ 9)))
              then Returns (False, Some TokenExpired)
              else if received_digest lib (Body req) = d then Returns (True, None)
              else Returns (False, Some DigestMismatch))"
proof -
  from GenerateJWT_issues [OF sign] digest
  obtain k where k: "privateKey s = Some k" and tok: "token = jwt_encode lib (issued_parts k t_sign d)"
    by auto
  from codec tok have dec: "jwt_decode lib token = Some (issued_parts k t_sign d)"
    by simp
  from trust k have pub: "publicKey r = Some k"
    by simp
  show ?thesis
    by (auto simp add: VerifyPushNotification_accepted
          [OF carried dec issued_parts_simps(1) rsa256 pub issued_parts_simps(2)
              issued_parts_simps(3) issued_parts_simps(4)] issued_parts_simps(5))
qed

lemma received_digest_same_payload:
  assumes "survives_transport lib payload"
    and "calculateRequestBodySHA256 lib payload = Inr d"
  shows "received_digest lib (Body (notification_request lib url token payload)) = d"
  using assms
  by (auto simp add: survives_transport_def received_digest_def notification_request_def
        calculateRequestBodySHA256_def split: sum.splits)

text \<open>
  The payload on which the two digests part: its member \<open>n\<close> is the \<open>int64\<close> \<open>2^53 + 1\<close>,
  which the sender encodes digit for digit and which the receiver, decoding the body into
  an \<open>interface{}\<close>, reads as the \<open>float64\<close> \<open>2^53\<close>.
\<close>

lemma bitlen_numeral:
  "bitlen (Suc 0) = 1"
  "bitlen (numeral Num.One) = 1"
  "bitlen (numeral (Num.Bit0 k)) = Suc (bitlen (numeral k))"
  "bitlen (numeral (Num.Bit1 k)) = Suc (bitlen (numeral k))"
  by (subst bitlen.simps, simp add: bitlen.simps numeral_Bit0_div_2 numeral_Bit1_div_2)+

lemma float64_of_int_examples:
  "float64_of_int 9007199254740993 = 9007199254740992"
  "float64_of_int 9007199254740992 = 9007199254740992"
  by (simp_all add: float64_of_int_def bitlen_numeral Let_def)

lemma decoded_examples:
  "decoded ''t1'' 9007199254740993 = payload4"
  "decoded ''t1'' 9007199254740992 = payload4"
  by (simp_all add: decoded_def float64_of_int_examples payload4_def)

lemma sign3: "GenerateJWT test_packages sender1 (seconds 1000) payload3 = Returns (Inr ''token3'')"
  by (simp add: GenerateJWT_def calculateRequestBodySHA256_def test_packages_def payload1_def
      payload2_def payload3_def NewWithClaims_def map_set_def SignedString_def
      is_SigningMethodRSA_def sender1_def Let_def parts1_def parts3_def header1_def claims1_def
      claims3_def seconds_def)

lemma sign4: "GenerateJWT test_packages sender1 (seconds 1000) payload4 = Returns (Inr ''token4'')"
  by (simp add: GenerateJWT_def calculateRequestBodySHA256_def test_packages_def payload1_def
      payload2_def payload3_def payload4_def NewWithClaims_def map_set_def SignedString_def
      is_SigningMethodRSA_def sender1_def Let_def parts1_def parts3_def parts4_def header1_def
      claims1_def claims3_def claims4_def seconds_def)

lemma parts3_simps:
  "map_of (parts_header parts3) ''alg'' = Some (IStr ''RS256'')"
  "parts_signature parts3 = RSASignature 7 ''RS256'' (parts_header parts3) (parts_claims parts3)"
  "claims_valid now (parts_claims parts3)"
  "map_of (parts_claims parts3) ''iat'' = Some (INum 1000)"
  "map_of (parts_claims parts3) ''request_body_sha256''
     = Some (IStr ''sha256:{id:t1,n:9007199254740993};'')"
  by (simp_all add: parts3_def header1_def claims3_def claims_valid_def)

lemma parts4_simps:
  "map_of (parts_header parts4) ''alg'' = Some (IStr ''RS256'')"
  "parts_signature parts4 = RSASignature 7 ''RS256'' (parts_header parts4) (parts_claims parts4)"
  "claims_valid now (parts_claims parts4)"
  "map_of (parts_claims parts4) ''iat'' = Some (INum 1000)"
  "map_of (parts_claims parts4) ''request_body_sha256''
     = Some (IStr ''sha256:{id:t1,n:9007199254740992};'')"
  by (simp_all add: parts4_def header1_def claims4_def claims_valid_def)

lemma received_payload3:
  "Body (notification_request test_packages url token payload3) = ''{id:t1,n:9007199254740993}''"
  "received_digest test_packages ''{id:t1,n:9007199254740993}''
     = ''sha256:{id:t1,n:9007199254740992};''"
  by (simp_all add: notification_request_def received_digest_def calculateRequestBodySHA256_def
        test_packages_def decoded_examples payload1_def payload2_def payload3_def payload4_def)

text \<open>
  Claim C1 says that the assertion signed over a payload verifies against the same
  payload within the five minutes, and that a payload changed after signing fails with
  \<open>digest mismatch\<close>. The signer hashes the payload as \<open>Encode\<close> writes it; the verifier
  hashes what \<open>Encode\<close> writes of the map it has decoded from the body, not the body.
  So the payload with \<open>n = 2^53 + 1\<close>, signed and sent untouched, is rejected with
  \<open>digest mismatch\<close> in the second in which it was signed; and the assertion signed over
  the payload with \<open>n = 2^53\<close> verifies against the payload with \<open>n = 2^53 + 1\<close>.
\<close>

theorem verifier_hashes_decoded_body:
  "GenerateJWT test_packages sender1 (seconds 1000) payload3 = Returns (Inr ''token3'')
 \<and> VerifyPushNotification test_packages receiver1 (seconds 1000)
        (notification_request test_packages ''http://client/notify'' ''token3'' payload3)
      = Returns (False, Some DigestMismatch)
 \<and> GenerateJWT test_packages sender1 (seconds 1000) payload4 = Returns (Inr ''token4'')
 \<and> payload3 \<noteq> payload4
 \<and> VerifyPushNotification test_packages receiver1 (seconds 1000)
        (notification_request test_packages ''http://client/notify'' ''token4'' payload3)
      = Returns (True, None)"
proof -
  let ?url = "''http://client/notify''"
  have carried: "Header_Get (Header (notification_request test_packages ?url token payload3))
                   ''Authorization'' = ''Bearer '' @ token" for token
    by (simp add: notification_request_def Header_Get_def)
  have fresh: "\<not> five_minutes < time_Since (seconds 1000) (time_Unix (int64_of_float64 1000))"
    unfolding iat_1000 by (simp add: five_minutes_def)
  have untouched:
    "VerifyPushNotification test_packages receiver1 (seconds 1000)
       (notification_request test_packages ?url ''token3'' payload3)
       = Returns (False, Some DigestMismatch)"
    by (simp add: VerifyPushNotification_accepted
          [OF carried test_codec(4) parts3_simps(1) rsa256 parts1_simps(3) parts3_simps(2-4)]
          fresh parts3_simps(5) received_payload3)
  have changed:
    "VerifyPushNotification test_packages receiver1 (seconds 1000)
       (notification_request test_packages ?url ''token4'' payload3)
       = Returns (True, None)"
    by (simp add: VerifyPushNotification_accepted
          [OF carried test_codec(5) parts4_simps(1) rsa256 parts1_simps(3) parts4_simps(2-4)]
          fresh parts4_simps(5) received_payload3)
  have "payload3 \<noteq> payload4"
    by (simp add: payload3_def payload4_def)
  with sign3 sign4 untouched changed show ?thesis
    by simp
qed

subsection \<open>The listener's notification handler\<close>




subsection \<open>The validation challenge\<close>

lemma challenge_sound:
  "VerifyPushNotificationURL http_Get validationToken url
     = (\<exists>resp. http_Get (url @ ''?validationToken='' @ validationToken) = Inr resp
              \<and> Response_Body resp = validationToken)"
  by (simp add: VerifyPushNotificationURL_def split: sum.splits)

lemma handleValidationCheck_echoes_header:
  "Request_Method r = ''GET'' \<Longrightarrow> Header_Get (Header r) ''Validation-Token'' = token
     \<Longrightarrow> token \<noteq> [] \<Longrightarrow> Response_Body (handleValidationCheck r) = token"
  by (simp add: handleValidationCheck_def)

lemma challenge_own_endpoint:
  "VerifyPushNotificationURL (listener_Get lib auth now origin) validationToken
       (origin @ ''/.well-known/validation-token'')
     = (validationToken = ''Validation token not found'' @ [CHR 0x0A])"
  by (auto simp add: VerifyPushNotificationURL_def listener_Get_def HasPrefix_def serve_def
        validation_get_def handleValidationCheck_def Header_Get_def http_Error_def Let_def)

text \<open>
  Claim C8 says that the listener's validation endpoint echoes the nonce
  \<open>VerifyPushNotificationURL\<close> supplies, so that the challenge returns true. The sender
  puts the nonce in the query parameter \<open>validationToken\<close>; the handler reads the request
  header \<open>Validation-Token\<close>, which \<open>http.Get\<close> does not set. So the endpoint answers 400
  with its error text and the challenge of the listener's own endpoint returns false.
\<close>

theorem challenge_own_endpoint_fails:
  "serve lib auth now
       (validation_get (''/.well-known/validation-token?validationToken=''
                          @ ''123e4567-e89b-12d3-a456-426614174000''))
     = Returns (http_Error ''Validation token not found'' 400)
 \<and> VerifyPushNotificationURL (listener_Get lib auth now ''http://localhost:5000'')
       ''123e4567-e89b-12d3-a456-426614174000''
       ''http://localhost:5000/.well-known/validation-token''
     = False"
  by (simp add: VerifyPushNotificationURL_def listener_Get_def HasPrefix_def serve_def
        validation_get_def handleValidationCheck_def Header_Get_def http_Error_def Let_def)

section \<open>Properties of the event multiplexer\<close>

subsection \<open>Slices and the registry\<close>

lemma length_write_at:
  "pos + length ys \<le> length xs \<Longrightarrow> length (write_at xs pos ys) = length xs"
  by (simp add: write_at_def)

lemma take_write_at:
  "pos + length ys \<le> length xs \<Longrightarrow> take (pos + length ys) (write_at xs pos ys) = take pos xs @ ys"
  by (simp add: write_at_def)

lemma find_sub_None: "find_sub xs c = None \<longleftrightarrow> c \<notin> set xs"
  by (induction xs) auto

lemma find_sub_Some:
  "find_sub xs c = Some i \<Longrightarrow> i < length xs \<and> take i xs @ drop (Suc i) xs = remove1 c xs"
proof (induction xs arbitrary: i)
  case Nil
  then show ?case by simp
next
  case (Cons x xs)
  show ?case
  proof (cases "x = c")
    case True
    with Cons.prems show ?thesis by simp
  next
    case False
    with Cons.prems obtain j where j: "find_sub xs c = Some j" "i = Suc j"
      by auto
    with Cons.IH [OF j(1)] False show ?thesis by simp
  qed
qed

lemma go_append_ok:
  assumes ok: "slice_ok h a" and run: "go_append grow h a ys = (h', a')"
  shows "slice_ok h' a'"
    and "slice_elems h' a' = slice_elems h a @ ys"
    and "length h \<le> length h'"
    and "arr a' = arr a \<or> (arr a' = length h \<and> h' ! arr a = h ! arr a)"
    and "ys \<noteq> [] \<Longrightarrow> 0 < scap a'"
    and "\<And>b. slice_ok h b \<Longrightarrow> arr b \<noteq> arr a \<or> scap b = 0 \<or> arr a' \<noteq> arr a
           \<Longrightarrow> slice_ok h' b \<and> slice_elems h' b = slice_elems h b"
proof -
  from ok have a: "arr a < length h" "off a = 0" "slen a \<le> scap a"
    "scap a \<le> length (h ! arr a)"
    by (simp_all add: slice_ok_def)
  from run have h'_def: "h' = fst (go_append grow h a ys)"
    and a'_def: "a' = snd (go_append grow h a ys)"
    by simp_all
  show "slice_ok h' a'" "slice_elems h' a' = slice_elems h a @ ys" "length h \<le> length h'"
    "arr a' = arr a \<or> (arr a' = length h \<and> h' ! arr a = h ! arr a)"
    using a unfolding h'_def a'_def
    by (auto simp add: go_append_def Let_def slice_ok_def slice_elems_def take_write_at
          length_write_at max_def nth_append)
  show "0 < scap a'" if "ys \<noteq> []"
  proof -
    from that obtain y ys' where "ys = y # ys'" by (cases ys) auto
    then show ?thesis
      using a unfolding a'_def
      by (auto simp add: go_append_def Let_def max_def)
  qed
  fix b assume b: "slice_ok h b" and other: "arr b \<noteq> arr a \<or> scap b = 0 \<or> arr a' \<noteq> arr a"
  show "slice_ok h' b \<and> slice_elems h' b = slice_elems h b"
  proof (cases "slen a + length ys \<le> scap a")
    case True
    then have h': "h' = h[arr a := write_at (h ! arr a) (slen a) ys]" and "arr a' = arr a"
      using a unfolding h'_def a'_def by (simp_all add: go_append_def Let_def)
    with other have "arr b \<noteq> arr a \<or> scap b = 0" by simp
    with b True a show ?thesis
      unfolding h'
      by (auto simp add: slice_ok_def slice_elems_def length_write_at nth_list_update)
  next
    case False
    then have "h' = h @ [slice_elems h a @ ys @
                 replicate (max (slen a + length ys) (grow (scap a) (slen a + length ys))
                            - (slen a + length ys)) 0]"
      unfolding h'_def by (simp add: go_append_def Let_def)
    with b show ?thesis
      by (auto simp add: slice_ok_def slice_elems_def nth_append)
  qed
qed

lemma go_append_fresh:
  assumes "go_append grow h a ys = (h', a')" and "scap a < slen a + length ys"
  shows "arr a' = length h"
  using assms by (auto simp add: go_append_def Let_def)

lemma registry_update:
  assumes wf: "wf_registry w"
    and a: "slice_ok (arrays w) a"
    and run: "go_append grow (arrays w) a ys = (h', a')"
    and own: "\<And>t s. t \<noteq> t0 \<Longrightarrow> taskSSESubscribers (mgr w) t = Some s \<Longrightarrow> 0 < scap s
                \<Longrightarrow> arr s \<noteq> arr a \<or> arr a' \<noteq> arr a"
    and w': "taskSSESubscribers (mgr w') = (taskSSESubscribers (mgr w))(t0 \<mapsto> a')"
            "arrays w' = h'"
  shows "wf_registry w'"
    and "registered w' t = (if t = t0 then slice_elems (arrays w) a @ ys else registered w t)"
proof -
  note ap = go_append_ok [OF a run]
  have others: "slice_ok h' s \<and> slice_elems h' s = slice_elems (arrays w) s
                  \<and> (0 < scap s \<longrightarrow> arr s \<noteq> arr a')"
    if "t \<noteq> t0" "taskSSESubscribers (mgr w) t = Some s" for t s
  proof -
    from wf that(2) have s: "slice_ok (arrays w) s"
      by (auto simp add: wf_registry_def)
    have "arr s \<noteq> arr a \<or> scap s = 0 \<or> arr a' \<noteq> arr a"
      using own [OF that] by auto
    from ap(6) [OF s this] have keep: "slice_ok h' s \<and> slice_elems h' s = slice_elems (arrays w) s" .
    have "arr s \<noteq> arr a'" if pos: "0 < scap s"
    proof (cases "arr a' = arr a")
      case True
      with own [OF \<open>t \<noteq> t0\<close> \<open>taskSSESubscribers (mgr w) t = Some s\<close> pos] show ?thesis by simp
    next
      case False
      with ap(4) have "arr a' = length (arrays w)" by simp
      with s show ?thesis by (simp add: slice_ok_def)
    qed
    with keep show ?thesis by simp
  qed
  show "wf_registry w'"
    unfolding wf_registry_def
  proof (intro conjI allI impI)
    from wf ap(3) show "arrays w' \<noteq> []"
      by (auto simp add: wf_registry_def w')
  next
    fix t s assume "taskSSESubscribers (mgr w') t = Some s"
    then show "slice_ok (arrays w') s"
      using ap(1) others by (cases "t = t0") (auto simp add: w')
  next
    fix t t' s s'
    assume h: "t \<noteq> t' \<and> taskSSESubscribers (mgr w') t = Some s
               \<and> taskSSESubscribers (mgr w') t' = Some s' \<and> 0 < scap s \<and> 0 < scap s'"
    consider "t = t0" "t' \<noteq> t0" | "t' = t0" "t \<noteq> t0" | "t \<noteq> t0" "t' \<noteq> t0"
      using h by blast
    then show "arr s \<noteq> arr s'"
    proof cases
      case 1
      with h others [of t' s'] show ?thesis by (auto simp add: w')
    next
      case 2
      with h others [of t s] show ?thesis by (auto simp add: w')
    next
      case 3
      with h wf show ?thesis by (auto simp add: w' wf_registry_def)
    qed
  qed
  show "registered w' t = (if t = t0 then slice_elems (arrays w) a @ ys else registered w t)"
    using ap(2) others [of t]
    by (auto simp add: registered_def w' split: option.splits)
qed

lemma setupSSEConsumer_frame:
  "subs (snd (setupSSEConsumer grow t0 r w)) = subs w"
  "pubs (snd (setupSSEConsumer grow t0 r w)) = pubs w"
  "chans w \<le> chans (snd (setupSSEConsumer grow t0 r w))"
  by (simp_all add: setupSSEConsumer_def set_registry_def Let_def split: prod.splits)

lemma setupSSEConsumer_effect:
  assumes wf: "wf_registry w"
  shows "wf_registry (snd (setupSSEConsumer grow t0 r w))"
    and "registered (snd (setupSSEConsumer grow t0 r w)) t
           = (if t = t0 \<and> \<not> (taskSSESubscribers (mgr w) t0 = None \<and> r)
              then registered w t @ [Suc (chans w)] else registered w t)"
    and "chans (snd (setupSSEConsumer grow t0 r w))
           = (if taskSSESubscribers (mgr w) t0 = None \<and> r then chans w else Suc (chans w))"
proof -
  let ?w' = "snd (setupSSEConsumer grow t0 r w)"
  let ?a = "case taskSSESubscribers (mgr w) t0 of
              None \<Rightarrow> \<lparr>arr = 0, off = 0, slen = 0, scap = 0\<rparr> | Some s \<Rightarrow> s"
  show "chans ?w' = (if taskSSESubscribers (mgr w) t0 = None \<and> r then chans w else Suc (chans w))"
    by (simp add: setupSSEConsumer_def set_registry_def Let_def split: prod.splits)
  have "wf_registry ?w'
      \<and> registered ?w' t
           = (if t = t0 \<and> \<not> (taskSSESubscribers (mgr w) t0 = None \<and> r)
              then registered w t @ [Suc (chans w)] else registered w t)"
  proof (cases "taskSSESubscribers (mgr w) t0 = None \<and> r")
    case True
    with wf show ?thesis by (simp add: setupSSEConsumer_def)
  next
    case False
    obtain h' a' where run: "go_append grow (arrays w) ?a [Suc (chans w)] = (h', a')"
      by (cases "go_append grow (arrays w) ?a [Suc (chans w)]")
    have a: "slice_ok (arrays w) ?a"
      using wf by (auto simp add: wf_registry_def slice_ok_def split: option.splits)
    have elems: "slice_elems (arrays w) ?a = registered w t0"
      by (simp add: registered_def slice_elems_def split: option.splits)
    have own: "arr s \<noteq> arr ?a \<or> arr a' \<noteq> arr ?a"
      if "t \<noteq> t0" "taskSSESubscribers (mgr w) t = Some s" "0 < scap s" for t s
    proof (cases "0 < scap ?a")
      case True
      then obtain s0 where "taskSSESubscribers (mgr w) t0 = Some s0" "?a = s0"
        by (cases "taskSSESubscribers (mgr w) t0") auto
      with wf that True show ?thesis
        by (auto simp add: wf_registry_def)
    next
      case False
      with a have "scap ?a < slen ?a + length [Suc (chans w)]"
        by (simp add: slice_ok_def)
      from go_append_fresh [OF run this] a show ?thesis
        by (simp add: slice_ok_def)
    qed
    have w': "taskSSESubscribers (mgr ?w') = (taskSSESubscribers (mgr w))(t0 \<mapsto> a')"
      "arrays ?w' = h'"
      using False run
      by (cases "taskSSESubscribers (mgr w) t0"; cases r;
          simp add: setupSSEConsumer_def set_registry_def Let_def)+
    from registry_update [OF wf a run own w'] elems show ?thesis
      using False by simp
  qed
  then show "wf_registry ?w'"
    and "registered ?w' t
           = (if t = t0 \<and> \<not> (taskSSESubscribers (mgr w) t0 = None \<and> r)
              then registered w t @ [Suc (chans w)] else registered w t)"
    by simp_all
qed

lemma remove_subscriber_frame:
  "subs (remove_subscriber grow t0 q w) = subs w"
  "pubs (remove_subscriber grow t0 q w) = pubs w"
  "chans (remove_subscriber grow t0 q w) = chans w"
  by (simp_all add: remove_subscriber_def set_registry_def Let_def
        split: option.splits prod.splits)

lemma remove_subscriber_effect:
  assumes wf: "wf_registry w"
  shows "wf_registry (remove_subscriber grow t0 q w)"
    and "registered (remove_subscriber grow t0 q w) t
           = (if t = t0 then remove1 q (registered w t) else registered w t)"
proof -
  let ?w' = "remove_subscriber grow t0 q w"
  have "wf_registry ?w'
      \<and> registered ?w' t = (if t = t0 then remove1 q (registered w t) else registered w t)"
  proof (cases "taskSSESubscribers (mgr w) t0")
    case None
    with wf show ?thesis by (simp add: remove_subscriber_def registered_def)
  next
    case (Some s)
    then have reg: "registered w t0 = slice_elems (arrays w) s"
      by (simp add: registered_def)
    from wf Some have s: "slice_ok (arrays w) s"
      by (auto simp add: wf_registry_def)
    show ?thesis
    proof (cases "find_sub (slice_elems (arrays w) s) q")
      case None
      then have "remove1 q (registered w t0) = registered w t0"
        by (simp add: reg find_sub_None remove1_idem)
      with wf Some None show ?thesis by (simp add: remove_subscriber_def)
    next
      case (Some i)
      note fs = find_sub_Some [OF Some]
      from fs s have i: "i < slen s"
        by (simp add: slice_elems_def slice_ok_def)
      let ?a = "slice_to s i"
      let ?ys = "slice_elems (arrays w) (slice_from s (i + 1))"
      obtain h' a' where run: "go_append grow (arrays w) ?a ?ys = (h', a')"
        by (cases "go_append grow (arrays w) ?a ?ys")
      have a: "slice_ok (arrays w) ?a"
        using s i by (simp add: slice_ok_def slice_to_def)
      have parts: "slice_elems (arrays w) ?a = take i (slice_elems (arrays w) s)"
        "?ys = drop (Suc i) (slice_elems (arrays w) s)"
        using s i
        by (simp_all add: slice_elems_def slice_to_def slice_from_def slice_ok_def
              min_def drop_take)
      have own: "arr s' \<noteq> arr ?a \<or> arr a' \<noteq> arr ?a"
        if "t \<noteq> t0" "taskSSESubscribers (mgr w) t = Some s'" "0 < scap s'" for t s'
      proof -
        from s i have "0 < scap s" by (simp add: slice_ok_def)
        with wf that \<open>taskSSESubscribers (mgr w) t0 = Some s\<close>
        have "arr s' \<noteq> arr s"
          unfolding wf_registry_def by blast
        then show ?thesis by (simp add: slice_to_def)
      qed
      have w': "taskSSESubscribers (mgr ?w') = (taskSSESubscribers (mgr w))(t0 \<mapsto> a')"
        "arrays ?w' = h'"
        using \<open>taskSSESubscribers (mgr w) t0 = Some s\<close> Some run
        by (simp_all add: remove_subscriber_def set_registry_def Let_def)
      from registry_update [OF wf a run own w'] parts fs reg show ?thesis
        by simp
    qed
  qed
  then show "wf_registry ?w'"
    and "registered ?w' t = (if t = t0 then remove1 q (registered w t) else registered w t)"
    by simp_all
qed

subsection \<open>Steps\<close>

lemma step_simps:
  "step grow (Subscribe t r) w = Some (snd (setupSSEConsumer grow t r w))"
  "step grow (Dequeue rid t q) w
     = (if q \<le> chans w then Some (snd (dequeueEventsForSSE rid t q w)) else None)"
  "step grow (Publish t ev) w
     = (case taskSSESubscribers (mgr w) t of
          None \<Rightarrow> Some w
        | Some s \<Rightarrow> Some (w\<lparr>pubs := pubs w @ [\<lparr>pub_taskID = t, taskUpdateEvent = ev,
                                                  subscribers = s, pub_pc = Ranging 0\<rparr>]\<rparr>))"
  "step grow (Remove g) w
     = (if g < length (subs w) \<and> sub_pc (subs w ! g) = Leaving
        then (let w' = remove_subscriber grow (sub_taskID (subs w ! g))
                         (sseEventQueue (subs w ! g)) w
              in Some (w'\<lparr>subs := (subs w')[g := (subs w' ! g)\<lparr>sub_pc := Closing\<rparr>]\<rparr>))
        else None)"
  "step grow (CloseResponse g) w
     = (if g < length (subs w) \<and> sub_pc (subs w ! g) = Closing
        then Some (w\<lparr>subs := (subs w)[g := (subs w ! g)
                \<lparr>sub_pc := Finished, responseChan_closed := True\<rparr>]\<rparr>)
        else None)"
  by (simp_all add: step_def)

lemma step_Forward:
  "step grow (Forward g) w = Some w'
     \<longleftrightarrow> g < length (subs w)
        \<and> (\<exists>r brk. sub_pc (subs w ! g) = Forwarding r brk
             \<and> w' = w\<lparr>subs := (subs w)[g := (subs w ! g)
                         \<lparr>sub_pc := (if brk then Leaving else Receiving),
                          delivered := delivered (subs w ! g) @ [r]\<rparr>]\<rparr>)"
  by (auto simp add: step_def split: subscriber_pc.splits)

lemma step_Handoff:
  "step grow (Handoff p g) w = Some w'
     \<longleftrightarrow> p < length (pubs w) \<and> g < length (subs w)
        \<and> (\<exists>i c. pub_pc (pubs w ! p) = Sending i c \<and> c \<noteq> 0
             \<and> sseEventQueue (subs w ! g) = c \<and> sub_pc (subs w ! g) = Receiving
             \<and> w' = w\<lparr>pubs := (pubs w)[p := (pubs w ! p)\<lparr>pub_pc := Ranging (Suc i)\<rparr>],
                       subs := (subs w)[g := (subs w ! g)\<lparr>sub_pc :=
                                 received (requestID (subs w ! g))
                                   (taskUpdateEvent (pubs w ! p))\<rparr>]\<rparr>)"
  by (auto simp add: step_def split: publisher_pc.splits)

lemma step_Next:
  "step grow (Next p) w = Some w'
     \<longleftrightarrow> p < length (pubs w)
        \<and> (\<exists>i. pub_pc (pubs w ! p) = Ranging i
             \<and> w' = w\<lparr>pubs := (pubs w)[p := (pubs w ! p)\<lparr>pub_pc :=
                        (if i < slen (subscribers (pubs w ! p))
                         then Sending i (slice_index (arrays w) (subscribers (pubs w ! p)) i)
                         else Returned)\<rparr>]\<rparr>)"
  by (auto simp add: step_def split: publisher_pc.splits)

lemma registered_cong:
  "mgr w' = mgr w \<Longrightarrow> arrays w' = arrays w \<Longrightarrow> registered w' = registered w"
  "mgr w' = mgr w \<Longrightarrow> arrays w' = arrays w \<Longrightarrow> wf_registry w' = wf_registry w"
  by (auto simp add: registered_def wf_registry_def fun_eq_iff split: option.splits)

lemma step_subs:
  assumes "step grow a w = Some w'" and "g < length (subs w)"
  shows "g < length (subs w')"
    and "sseEventQueue (subs w' ! g) = sseEventQueue (subs w ! g)"
    and "sub_taskID (subs w' ! g) = sub_taskID (subs w ! g)"
    and "requestID (subs w' ! g) = requestID (subs w ! g)"
    and "\<not> acts_on g a \<Longrightarrow> subs w' ! g = subs w ! g"
proof -
  have "g < length (subs w')
      \<and> sseEventQueue (subs w' ! g) = sseEventQueue (subs w ! g)
      \<and> sub_taskID (subs w' ! g) = sub_taskID (subs w ! g)
      \<and> requestID (subs w' ! g) = requestID (subs w ! g)
      \<and> (\<not> acts_on g a \<longrightarrow> subs w' ! g = subs w ! g)"
  proof (cases a)
    case (Subscribe t r)
    with assms show ?thesis
      by (auto simp add: step_simps setupSSEConsumer_frame acts_on_def)
  next
    case (Dequeue rid t q)
    with assms show ?thesis
      by (auto simp add: step_simps dequeueEventsForSSE_def nth_append acts_on_def
            split: if_splits)
  next
    case (Publish t ev)
    with assms show ?thesis
      by (auto simp add: step_simps acts_on_def split: option.splits)
  next
    case (Next p)
    with assms show ?thesis
      by (auto simp add: step_Next acts_on_def)
  next
    case (Handoff p g')
    with assms show ?thesis
      by (auto simp add: step_Handoff acts_on_def nth_list_update)
  next
    case (Forward g')
    with assms show ?thesis
      by (auto simp add: step_Forward acts_on_def nth_list_update)
  next
    case (Remove g')
    with assms show ?thesis
      by (auto simp add: step_simps acts_on_def nth_list_update Let_def
            remove_subscriber_frame split: if_splits)
  next
    case (CloseResponse g')
    with assms show ?thesis
      by (auto simp add: step_simps acts_on_def nth_list_update split: if_splits)
  qed
  then show "g < length (subs w')"
    and "sseEventQueue (subs w' ! g) = sseEventQueue (subs w ! g)"
    and "sub_taskID (subs w' ! g) = sub_taskID (subs w ! g)"
    and "requestID (subs w' ! g) = requestID (subs w ! g)"
    and "\<not> acts_on g a \<Longrightarrow> subs w' ! g = subs w ! g"
    by simp_all
qed

lemma registry_unchanged:
  assumes "mgr w' = mgr w" "arrays w' = arrays w" "chans w' = chans w" "wf_registry w"
  shows "wf_registry w' \<and> registered w' t = registered w t \<and> chans w \<le> chans w'"
  using assms registered_cong(1) [OF assms(1,2)] registered_cong(2) [OF assms(1,2)]
  by simp

lemma step_registry:
  assumes wf: "wf_registry w" and st: "step grow a w = Some w'"
  shows "wf_registry w'"
    and "registered w' t
           = (case a of
                Subscribe t0 r \<Rightarrow>
                  if t = t0 \<and> \<not> (taskSSESubscribers (mgr w) t0 = None \<and> r)
                  then registered w t @ [Suc (chans w)] else registered w t
              | Remove g \<Rightarrow>
                  if t = sub_taskID (subs w ! g)
                  then remove1 (sseEventQueue (subs w ! g)) (registered w t)
                  else registered w t
              | _ \<Rightarrow> registered w t)"
    and "chans w \<le> chans w'"
proof -
  have "wf_registry w'
      \<and> registered w' t
           = (case a of
                Subscribe t0 r \<Rightarrow>
                  if t = t0 \<and> \<not> (taskSSESubscribers (mgr w) t0 = None \<and> r)
                  then registered w t @ [Suc (chans w)] else registered w t
              | Remove g \<Rightarrow>
                  if t = sub_taskID (subs w ! g)
                  then remove1 (sseEventQueue (subs w ! g)) (registered w t)
                  else registered w t
              | _ \<Rightarrow> registered w t)
      \<and> chans w \<le> chans w'"
  proof (cases a)
    case (Subscribe t0 r)
    with st have "w' = snd (setupSSEConsumer grow t0 r w)"
      by (simp add: step_simps)
    with Subscribe setupSSEConsumer_effect [OF wf, of grow t0 r] show ?thesis
      by simp
  next
    case (Dequeue rid t0 q)
    with st have "mgr w' = mgr w" "arrays w' = arrays w" "chans w' = chans w"
      by (auto simp add: step_simps dequeueEventsForSSE_def split: if_splits)
    from registry_unchanged [OF this wf, of t] Dequeue show ?thesis by simp
  next
    case (Publish t0 ev)
    with st have "mgr w' = mgr w" "arrays w' = arrays w" "chans w' = chans w"
      by (auto simp add: step_simps split: option.splits)
    from registry_unchanged [OF this wf, of t] Publish show ?thesis by simp
  next
    case (Next p)
    with st have "mgr w' = mgr w" "arrays w' = arrays w" "chans w' = chans w"
      by (auto simp add: step_Next)
    from registry_unchanged [OF this wf, of t] Next show ?thesis by simp
  next
    case (Handoff p g)
    with st have "mgr w' = mgr w" "arrays w' = arrays w" "chans w' = chans w"
      by (auto simp add: step_Handoff)
    from registry_unchanged [OF this wf, of t] Handoff show ?thesis by simp
  next
    case (Forward g)
    with st have "mgr w' = mgr w" "arrays w' = arrays w" "chans w' = chans w"
      by (auto simp add: step_Forward)
    from registry_unchanged [OF this wf, of t] Forward show ?thesis by simp
  next
    case (Remove g)
    let ?r = "remove_subscriber grow (sub_taskID (subs w ! g)) (sseEventQueue (subs w ! g)) w"
    from Remove st have "mgr w' = mgr ?r" "arrays w' = arrays ?r" "chans w' = chans ?r"
      by (auto simp add: step_simps Let_def split: if_splits)
    then have "wf_registry w' = wf_registry ?r" "registered w' t = registered ?r t"
      "chans w' = chans w"
      using registered_cong [of w' ?r] by (simp_all add: remove_subscriber_frame)
    with Remove
      remove_subscriber_effect(1) [OF wf, of grow "sub_taskID (subs w ! g)"
                                     "sseEventQueue (subs w ! g)"]
      remove_subscriber_effect(2) [OF wf, of grow "sub_taskID (subs w ! g)"
                                     "sseEventQueue (subs w ! g)" t]
    show ?thesis
      by simp
  next
    case (CloseResponse g)
    with st have "mgr w' = mgr w" "arrays w' = arrays w" "chans w' = chans w"
      by (auto simp add: step_simps split: if_splits)
    from registry_unchanged [OF this wf, of t] CloseResponse show ?thesis by simp
  qed
  then show "wf_registry w'"
    and "registered w' t
           = (case a of
                Subscribe t0 r \<Rightarrow>
                  if t = t0 \<and> \<not> (taskSSESubscribers (mgr w) t0 = None \<and> r)
                  then registered w t @ [Suc (chans w)] else registered w t
              | Remove g \<Rightarrow>
                  if t = sub_taskID (subs w ! g)
                  then remove1 (sseEventQueue (subs w ! g)) (registered w t)
                  else registered w t
              | _ \<Rightarrow> registered w t)"
    and "chans w \<le> chans w'"
    by simp_all
qed

lemma step_new_queue:
  assumes "step grow a w = Some w'" and "g < length (subs w')" and "\<not> g < length (subs w)"
  shows "sseEventQueue (subs w' ! g) \<le> chans w"
  using assms
  by (cases a)
     (auto simp add: step_simps step_Next step_Handoff step_Forward setupSSEConsumer_frame
        dequeueEventsForSSE_def remove_subscriber_frame Let_def nth_append
        split: if_splits option.splits)

lemma step_registry_inv:
  assumes inv: "registry_inv w" and st: "step grow a w = Some w'"
  shows "registry_inv w'"
proof -
  from inv have wf: "wf_registry w"
    and dist: "\<And>t. distinct (registered w t)"
    and bound: "\<And>t c. c \<in> set (registered w t) \<Longrightarrow> c \<le> chans w"
    and queues: "\<And>g. g < length (subs w) \<Longrightarrow> sseEventQueue (subs w ! g) \<le> chans w"
    by (auto simp add: registry_inv_def)
  note reg = step_registry [OF wf st]
  have mono: "chans w \<le> chans w'" by (rule reg(3))
  have grows: "Suc (chans w) \<le> chans w'"
    if "a = Subscribe t0 r" "\<not> (taskSSESubscribers (mgr w) t0 = None \<and> r)" for t0 r
    using st that setupSSEConsumer_effect(3) [OF wf, of grow t0 r]
    by (simp add: step_simps)
  have "distinct (registered w' t) \<and> (\<forall>c \<in> set (registered w' t). c \<le> chans w')" for t
  proof (cases a)
    case (Subscribe t0 r)
    show ?thesis
    proof (cases "t = t0 \<and> \<not> (taskSSESubscribers (mgr w) t0 = None \<and> r)")
      case True
      with Subscribe reg(2) [of t] have eq: "registered w' t = registered w t @ [Suc (chans w)]"
        by simp
      from True Subscribe have "Suc (chans w) \<le> chans w'" by (intro grows) auto
      moreover have "Suc (chans w) \<notin> set (registered w t)"
        using bound [of "Suc (chans w)" t] by auto
      ultimately show ?thesis
        using dist [of t] bound [of _ t] mono unfolding eq by fastforce
    next
      case False
      with Subscribe reg(2) [of t] have "registered w' t = registered w t" by auto
      with dist [of t] bound [of _ t] mono show ?thesis by fastforce
    qed
  next
    case (Remove g)
    with reg(2) [of t] have "set (registered w' t) \<subseteq> set (registered w t)"
      "distinct (registered w' t)"
      using dist [of t] by (auto simp add: set_remove1_subset dest: notin_set_remove1)
    with bound [of _ t] mono show ?thesis by fastforce
  qed (use reg(2) [of t] dist [of t] bound [of _ t] mono in \<open>fastforce+\<close>)
  moreover have "sseEventQueue (subs w' ! g) \<le> chans w'" if "g < length (subs w')" for g
  proof (cases "g < length (subs w)")
    case True
    from step_subs(2) [OF st True] queues [OF True] mono show ?thesis by simp
  next
    case False
    from step_new_queue [OF st that False] mono show ?thesis by simp
  qed
  ultimately show ?thesis
    using reg(1) by (simp add: registry_inv_def)
qed





lemma exec_chans:
  assumes "registry_inv w" and "exec grow sched w = Some w'"
  shows "chans w \<le> chans w'"
  using assms
proof (induction sched arbitrary: w)
  case Nil
  then show ?case by simp
next
  case (Cons a sched)
  from Cons.prems(2) obtain w1 where st: "step grow a w = Some w1"
    and rest: "exec grow sched w1 = Some w'"
    by (auto split: option.splits)
  from Cons.prems(1) have "wf_registry w" by (simp add: registry_inv_def)
  from step_registry(3) [OF this st] Cons.IH [OF step_registry_inv [OF Cons.prems(1) st] rest]
  show ?case by simp
qed



subsection \<open>A subscriber after its last event\<close>









subsection \<open>Publishing while a subscriber leaves\<close>

text \<open>
  Claim C6 says that every subscriber registered throughout a sequence of publications
  observes all of them, in order. \<open>enqueueEventsForSSE\<close> copies the slice header under
  the lock and walks it after releasing the lock, while the deferred removal of a
  subscriber that has received a final event shifts the same backing array to the left.
  The run below has four subscribers on \<open>t1\<close>; a \<open>working\<close> update reaches all four, and
  the reader of the second is slow to take it. A \<open>completed\<close> update with
  \<open>final = true\<close> is then published: the first subscriber receives it and removes
  itself while the publisher waits for the second, so the publisher's next read, at
  index 2, finds the fourth subscriber where the third was, and its read at index 3 finds
  the fourth again. At the end the third subscriber (channel 3, request 3) is still
  registered and still waiting, has been delivered the first update only, and the
  publisher is blocked for good on the fourth subscriber's queue: neither its loop head
  nor a hand-off to any goroutine can happen.
\<close>

theorem publish_skips_subscriber:
  "map_option
     (\<lambda>w. (registered w ''t1'', map sseEventQueue (subs w), map sub_pc (subs w),
           map delivered (subs w), map pub_pc (pubs w)))
     (exec growslice skipping_schedule new_world)
   = Some ([3], [1, 2, 3, 4], [Finished, Finished, Receiving, Finished],
           [[result_response 1 working_event, result_response 1 completed_event],
            [result_response 2 working_event, result_response 2 completed_event],
            [result_response 3 working_event],
            [result_response 4 working_event, result_response 4 completed_event]],
           [Returned, Sending 3 4])
 \<and> Option.bind (exec growslice skipping_schedule new_world)
       (\<lambda>w. map_option (\<lambda>w'. ()) (step growslice (Next 1) w)) = None
 \<and> list_all (\<lambda>g. Option.bind (exec growslice skipping_schedule new_world)
                       (\<lambda>w. map_option (\<lambda>w'. ()) (step growslice (Handoff 1 g) w)) = None)
       [0, 1, 2, 3]"
  by code_simp

end
